theory Spec2Isabelle
  imports Main "HOL-Library.AList" "HOL-Library.Sublist"
begin

section \<open>Data model\<close>

text \<open>
  The objects handled by the planner (\<^verbatim>\<open>genUpdatePlan\<close>) and by the procedure
  coordinator (\<^verbatim>\<open>coordinatePlan\<close>). Field names are those of the JavaScript objects,
  prefixed by the record they belong to. A property that may be \<^verbatim>\<open>undefined\<close> is an
  \<open>option\<close>. JavaScript objects used as dictionaries are keyed by service names,
  instance ids and image uuids; those keys are taken not to be names of properties that
  every object inherits (such as \<^verbatim>\<open>constructor\<close>).
\<close>

record image =
  img_uuid :: string
  img_name :: string
  img_version :: string
  img_published_at :: string

record inst =
  inst_type :: string
  inst_service :: string
  inst_instance :: string
  inst_version :: string
  inst_image :: string
  inst_server :: string
  inst_hostname :: string
  inst_zonename :: "string option"
  inst_alias :: "string option"
  inst_ip :: "string option"

record service =
  svc_name :: string
  svc_type :: string
  svc_params :: "string option option"

text \<open>
  \<open>svc_params\<close> is \<^verbatim>\<open>service.params\<close> reduced to its \<^verbatim>\<open>image_uuid\<close>: \<open>None\<close> when the
  service object has no \<^verbatim>\<open>params\<close>, \<open>Some None\<close> when \<^verbatim>\<open>params\<close> has no \<^verbatim>\<open>image_uuid\<close>.
\<close>

record change =
  ch_type :: string
  ch_service :: service
  ch_instance :: "inst option"
  ch_server :: "string option"
  ch_images :: "image list option"
  ch_image :: "image option"
  ch_inst :: "inst option"
  ch_insts :: "inst list option"

record plan =
  v :: int
  curr :: "inst list"
  targ :: "inst list"
  changes :: "change list"
  justImages :: bool

text \<open>\<^verbatim>\<open>{type, service, instance}\<close> as printed by \<^verbatim>\<open>reprFromChange\<close>.\<close>

type_synonym repr = "string \<times> string \<times> string option"

record summary =
  sum_type :: "string option"
  sum_service :: "string option"
  sum_image :: "string option"

datatype update_error =
    DoNotSupport "summary list"
  | MultipleChangesSameService repr repr
  | MultipleChangesSameInstance repr repr
  | ServiceAndInstance repr repr
  | UnknownService string
  | UnknownInstanceUuid string
  | UnknownInstanceAlias string
  | UnknownServer string
  | UnknownImage string

text \<open>What \<^verbatim>\<open>validateChanges\<close> finds wrong with a change.\<close>

datatype invalid =
    StringRequired string
  | ExtraFields "string list"
  | InvalidType string
  | InvalidChange

text \<open>
  The errors that are passed to a callback or thrown. \<open>MultiError\<close> is the error that
  \<^verbatim>\<open>vasync.forEachParallel\<close> (and \<^verbatim>\<open>validateChanges\<close>, for more than one error) builds
  from the errors it has collected; \<open>Error\<close> is a plain \<^verbatim>\<open>new Error(message)\<close>.
\<close>

datatype error =
    UpdateError update_error
  | ValidationError invalid
  | SDCClientError string
  | InternalError string
  | AssertionError
  | TypeError
  | SyntaxError
  | Error string
  | MultiError "error list"

datatype "procedure" =
    DownloadImages "image list"
  | UpdateStatelessServicesV1 "change list"
  | UpdateSingleHeadnodeImgapi "change list"
  | UpdateUFDSServiceV1 "change list"
  | UpdateMorayV2 "change list"
  | UpdateSingleHNSapiV1 "change list"
  | UpdateManateeV2 "change list"
  | UpdateBinderV1 "change list"
  | UpdateMahiV1 "change list"

section \<open>The procedure coordinator (\<^verbatim>\<open>lib/procedures/index.js\<close>)\<close>

text \<open>The dictionary built by the first loop of \<^verbatim>\<open>coordinatePlan\<close>.\<close>

definition instsFromSvcName :: "inst list \<Rightarrow> (string \<rightharpoonup> inst list)" where
  "instsFromSvcName insts =
     foldl (\<lambda>m i. m(inst_service i \<mapsto>
                     (case m (inst_service i) of None \<Rightarrow> [] | Some l \<Rightarrow> l) @ [i]))
           Map.empty insts"

text \<open>\<^verbatim>\<open>instsFromSvcName[change.service.name] || []\<close>\<close>

definition svcInstsOf :: "(string \<rightharpoonup> inst list) \<Rightarrow> change \<Rightarrow> inst list" where
  "svcInstsOf m c = (case m (svc_name (ch_service c)) of None \<Rightarrow> [] | Some l \<Rightarrow> l)"

text \<open>The answer of the local image store to \<^verbatim>\<open>sdcadm.imgapi.getImage\<close>.\<close>

datatype imgapi_reply = Local | ResourceNotFound | ClientErr string

text \<open>The state threaded through the pipeline: the variables \<^verbatim>\<open>changes\<close> and \<^verbatim>\<open>procs\<close>.\<close>

type_synonym coord = "change list \<times> procedure list"

definition imageFromUuid :: "change list \<Rightarrow> (string \<times> image) list" where
  "imageFromUuid cs =
     foldl (\<lambda>m c. case ch_image c of None \<Rightarrow> m
                   | Some img \<Rightarrow> AList.update (img_uuid img) img m) [] cs"

text \<open>
  The images that the local image store answers \<^verbatim>\<open>ResourceNotFound\<close> for, and the errors
  of its other failures. The lookups run in parallel and push their results as the answers
  come in; here the answers are taken to come in the order of insertion of the uuids into
  \<^verbatim>\<open>imageFromUuid\<close>, so that the order inside the two lists is that order (the code
  promises none). The callback of \<^verbatim>\<open>vasync.forEachParallel\<close> gets the errors wrapped in one
  \<open>MultiError\<close>.
\<close>

definition imagesToRetrieve :: "(string \<Rightarrow> imgapi_reply) \<Rightarrow> change list \<Rightarrow> image list" where
  "imagesToRetrieve getImage cs =
     filter (\<lambda>i. getImage (img_uuid i) = ResourceNotFound) (map snd (imageFromUuid cs))"

definition imageErrors :: "(string \<Rightarrow> imgapi_reply) \<Rightarrow> change list \<Rightarrow> string list" where
  "imageErrors getImage cs =
     concat (map (\<lambda>i. case getImage (img_uuid i) of ClientErr e \<Rightarrow> [e] | _ \<Rightarrow> [])
                 (map snd (imageFromUuid cs)))"

definition coordImages :: "(string \<Rightarrow> imgapi_reply) \<Rightarrow> coord \<Rightarrow> error + coord" where
  "coordImages getImage st =
     (case st of (cs, procs) \<Rightarrow>
        (case imageErrors getImage cs of
           e # es \<Rightarrow> Inl (MultiError (map SDCClientError (e # es)))
         | [] \<Rightarrow> Inr (cs, if length (imagesToRetrieve getImage cs) > 0
                           then procs @ [DownloadImages (imagesToRetrieve getImage cs)]
                           else procs)))"

definition simpleServices :: "string list" where
  "simpleServices = [''adminui'', ''amon'', ''amonredis'', ''assets'',
     ''ca'', ''cloudapi'', ''cnapi'', ''dhcpd'', ''fwapi'', ''napi'', ''papi'',
     ''rabbitmq'', ''redis'', ''sdc'', ''vmapi'', ''workflow'', ''manta'']"

text \<open>
  One turn of a \<^verbatim>\<open>changes.forEach\<close> body. The accumulator is the pair of the local
  arrays \<^verbatim>\<open>handle\<close> and \<^verbatim>\<open>remaining\<close>. In the two "skip change" branches the body only
  logs: the change is pushed to neither array.
\<close>

definition simpleEach ::
  "(string \<rightharpoonup> inst list) \<Rightarrow> string \<Rightarrow> change list \<times> change list \<Rightarrow> change
     \<Rightarrow> change list \<times> change list" where
  "simpleEach m currHostname acc c =
     (case acc of (handle, remaining) \<Rightarrow>
        let svcInsts = svcInstsOf m c in
        if ch_type c = ''update-service'' \<and> svc_name (ch_service c) \<in> set simpleServices
        then (if length svcInsts = 0 then (handle @ [c], remaining)
              else if length svcInsts \<noteq> 1 then (handle, remaining)
              else if inst_hostname (svcInsts ! 0) \<noteq> currHostname then (handle, remaining)
              else (handle @ [c\<lparr>ch_inst := Some (svcInsts ! 0)\<rparr>], remaining))
        else (handle, remaining @ [c]))"

definition singleHeadnodeEach ::
  "string \<Rightarrow> (string \<rightharpoonup> inst list) \<Rightarrow> string \<Rightarrow> change list \<times> change list \<Rightarrow> change
     \<Rightarrow> change list \<times> change list" where
  "singleHeadnodeEach svc m currHostname acc c =
     (case acc of (handle, remaining) \<Rightarrow>
        let svcInsts = svcInstsOf m c in
        if ch_type c = ''update-service'' \<and> svc_name (ch_service c) = svc
        then (if length svcInsts \<noteq> 1 then (handle, remaining)
              else if inst_hostname (svcInsts ! 0) \<noteq> currHostname then (handle, remaining)
              else (handle @ [c\<lparr>ch_inst := Some (svcInsts ! 0)\<rparr>], remaining))
        else (handle, remaining @ [c]))"

definition haEach ::
  "string \<Rightarrow> (string \<rightharpoonup> inst list) \<Rightarrow> change list \<times> change list \<Rightarrow> change
     \<Rightarrow> change list \<times> change list" where
  "haEach svc m acc c =
     (case acc of (handle, remaining) \<Rightarrow>
        if ch_type c = ''update-service'' \<and> svc_name (ch_service c) = svc
        then (let svcInsts = svcInstsOf m c in
              if length svcInsts > 1
              then (handle @ [c\<lparr>ch_insts := Some svcInsts\<rparr>], remaining)
              else (handle @ [c\<lparr>ch_inst := (case svcInsts of [] \<Rightarrow> None | i # _ \<Rightarrow> Some i)\<rparr>],
                    remaining))
        else (handle, remaining @ [c]))"

text \<open>
  The tail shared by every filter: \<^verbatim>\<open>if (handle.length) { changes = remaining;
  procs.push(new P({changes: handle})); }\<close>.
\<close>

definition commit ::
  "(change list \<Rightarrow> procedure) \<Rightarrow> coord \<Rightarrow> change list \<times> change list \<Rightarrow> coord" where
  "commit P st acc =
     (case st of (cs, procs) \<Rightarrow> case acc of (handle, remaining) \<Rightarrow>
        if length handle > 0 then (remaining, procs @ [P handle]) else (cs, procs))"

definition updateSimpleServices :: "(string \<rightharpoonup> inst list) \<Rightarrow> string \<Rightarrow> coord \<Rightarrow> coord" where
  "updateSimpleServices m currHostname st =
     commit UpdateStatelessServicesV1 st (foldl (simpleEach m currHostname) ([], []) (fst st))"

definition updateSingleHeadnodeImgapi :: "(string \<rightharpoonup> inst list) \<Rightarrow> string \<Rightarrow> coord \<Rightarrow> coord" where
  "updateSingleHeadnodeImgapi m currHostname st =
     commit UpdateSingleHeadnodeImgapi st
       (foldl (singleHeadnodeEach ''imgapi'' m currHostname) ([], []) (fst st))"

definition updateSingleHeadnodeUFDS :: "(string \<rightharpoonup> inst list) \<Rightarrow> string \<Rightarrow> coord \<Rightarrow> coord" where
  "updateSingleHeadnodeUFDS m currHostname st =
     commit UpdateUFDSServiceV1 st
       (foldl (singleHeadnodeEach ''ufds'' m currHostname) ([], []) (fst st))"

definition updateMorays :: "(string \<rightharpoonup> inst list) \<Rightarrow> coord \<Rightarrow> coord" where
  "updateMorays m st =
     commit UpdateMorayV2 st (foldl (haEach ''moray'' m) ([], []) (fst st))"

definition updateSingleHeadnodeSapi :: "(string \<rightharpoonup> inst list) \<Rightarrow> string \<Rightarrow> coord \<Rightarrow> coord" where
  "updateSingleHeadnodeSapi m currHostname st =
     commit UpdateSingleHNSapiV1 st
       (foldl (singleHeadnodeEach ''sapi'' m currHostname) ([], []) (fst st))"

definition updateManatees :: "(string \<rightharpoonup> inst list) \<Rightarrow> coord \<Rightarrow> coord" where
  "updateManatees m st =
     commit UpdateManateeV2 st (foldl (haEach ''manatee'' m) ([], []) (fst st))"

definition updateBinder :: "(string \<rightharpoonup> inst list) \<Rightarrow> string \<Rightarrow> coord \<Rightarrow> coord" where
  "updateBinder m currHostname st =
     commit UpdateBinderV1 st
       (foldl (singleHeadnodeEach ''binder'' m currHostname) ([], []) (fst st))"

definition updateMahi :: "(string \<rightharpoonup> inst list) \<Rightarrow> string \<Rightarrow> coord \<Rightarrow> coord" where
  "updateMahi m currHostname st =
     commit UpdateMahiV1 st
       (foldl (singleHeadnodeEach ''mahi'' m currHostname) ([], []) (fst st))"

text \<open>
  The \<^verbatim>\<open>vasync.pipeline\<close> of \<^verbatim>\<open>coordinatePlan\<close>: only \<^verbatim>\<open>coordImages\<close> can pass an error
  to \<^verbatim>\<open>next\<close>. \<open>getImage\<close> stands for the local image store and \<open>currHostname\<close> for
  \<^verbatim>\<open>os.hostname()\<close>.
\<close>

definition runFilters ::
  "(string \<Rightarrow> imgapi_reply) \<Rightarrow> string \<Rightarrow> plan \<Rightarrow> error + coord" where
  "runFilters getImage currHostname p =
     (let m = instsFromSvcName (curr p) in
      case coordImages getImage (changes p, []) of
        Inl e \<Rightarrow> Inl e
      | Inr st \<Rightarrow>
          Inr (updateMahi m currHostname
              (updateBinder m currHostname
              (updateManatees m
              (updateSingleHeadnodeSapi m currHostname
              (updateMorays m
              (updateSingleHeadnodeUFDS m currHostname
              (updateSingleHeadnodeImgapi m currHostname
              (updateSimpleServices m currHostname st)))))))))"

definition summarize :: "change \<Rightarrow> summary" where
  "summarize c =
     \<lparr> sum_type = (if ch_type c = [] then None else Some (ch_type c)),
       sum_service = Some (svc_name (ch_service c)),
       sum_image = map_option img_uuid (ch_image c) \<rparr>"

fun isDownloadImages :: "procedure \<Rightarrow> bool" where
  "isDownloadImages (DownloadImages _) = True"
| "isDownloadImages _ = False"

text \<open>The final callback \<^verbatim>\<open>done\<close> of the pipeline.\<close>

definition done_cb :: "plan \<Rightarrow> error + coord \<Rightarrow> error + procedure list" where
  "done_cb p r =
     (case r of
        Inl err \<Rightarrow> Inl err
      | Inr (cs, procs) \<Rightarrow>
          if length cs > 0 then Inl (UpdateError (DoNotSupport (map summarize cs)))
          else if justImages p then Inr (filter isDownloadImages procs)
          else Inr procs)"

definition coordinatePlan ::
  "(string \<Rightarrow> imgapi_reply) \<Rightarrow> string \<Rightarrow> plan \<Rightarrow> error + procedure list" where
  "coordinatePlan getImage currHostname p = done_cb p (runFilters getImage currHostname p)"

section \<open>The planner (\<^verbatim>\<open>SdcAdm.prototype.genUpdatePlan\<close>)\<close>

subsection \<open>\<^verbatim>\<open>validateChanges\<close>\<close>

text \<open>
  A change as \<^verbatim>\<open>options.changes\<close> gives it is an object of any keys and values. It is
  the list of its own keys with their values, in the order of \<^verbatim>\<open>Object.keys\<close>; of a
  value that is no string only its truth value is kept.
\<close>

datatype jsval = JsString string | JsOther bool

type_synonym raw_change = "(string \<times> jsval) list"

definition truthy :: "jsval option \<Rightarrow> bool" where
  "truthy x = (case x of None \<Rightarrow> False | Some (JsString s) \<Rightarrow> s \<noteq> [] | Some (JsOther b) \<Rightarrow> b)"

text \<open>The local functions \<^verbatim>\<open>validateString\<close> and \<^verbatim>\<open>validateKeys\<close>: the errors they push.\<close>

definition validateString :: "raw_change \<Rightarrow> string \<Rightarrow> error list" where
  "validateString c k =
     (case map_of c k of Some (JsString _) \<Rightarrow> [] | _ \<Rightarrow> [ValidationError (StringRequired k)])"

definition validateKeys :: "string list \<Rightarrow> raw_change \<Rightarrow> error list" where
  "validateKeys allowed c =
     (let extraKeys = filter (\<lambda>k. k \<notin> set allowed) (map fst c) in
      if length extraKeys > 0 then [ValidationError (ExtraFields extraKeys)] else [])"

text \<open>
  \<^verbatim>\<open>if (change.type && change.type !== t) errs.push(...) else change.type = t\<close>: the
  errors and the change as it is afterwards.
\<close>

definition checkType :: "string \<Rightarrow> raw_change \<Rightarrow> error list \<times> raw_change" where
  "checkType t c =
     (if truthy (map_of c ''type'') \<and> map_of c ''type'' \<noteq> Some (JsString t)
      then ([ValidationError (InvalidType t)], c)
      else ([], AList.update ''type'' (JsString t) c))"

text \<open>One turn of the loop of \<^verbatim>\<open>validateChanges\<close>.\<close>

definition validateChange :: "raw_change \<Rightarrow> error list \<times> raw_change" where
  "validateChange c =
     (let img = (if truthy (map_of c ''image'') then validateString c ''image'' else []) in
      if map_of c ''type'' = Some (JsString ''create'') then
        (img @ validateString c ''service'' @ validateString c ''server'' @
         validateKeys [''type'', ''server'', ''service'', ''image''] c, c)
      else if map_of c ''type'' = Some (JsString ''delete'') \<and> truthy (map_of c ''service'') \<and>
              truthy (map_of c ''server'') then
        (img @ validateString c ''service'' @ validateString c ''server'' @
         validateKeys [''type'', ''server'', ''service'', ''image''] c, c)
      else if map_of c ''type'' = Some (JsString ''delete'') then
        (img @ validateString c ''instance'' @ validateKeys [''type'', ''instance'', ''image''] c, c)
      else if map_of c ''type'' = Some (JsString ''delete-service'') then
        (img @ validateString c ''service'' @ validateKeys [''type'', ''service''] c, c)
      else if truthy (map_of c ''service'') \<and> truthy (map_of c ''server'') then
        (case checkType ''update-instance'' c of
           (e, c') \<Rightarrow>
             (img @ e @ validateString c' ''service'' @ validateString c' ''server'' @
              validateKeys [''type'', ''server'', ''service'', ''image''] c', c'))
      else if truthy (map_of c ''instance'') then
        (case checkType ''update-instance'' c of
           (e, c') \<Rightarrow>
             (img @ e @ validateString c' ''instance'' @
              validateKeys [''type'', ''instance'', ''image''] c', c'))
      else if truthy (map_of c ''service'') then
        (case checkType ''update-service'' c of
           (e, c') \<Rightarrow>
             (img @ e @ validateString c' ''service'' @
              validateKeys [''type'', ''service'', ''image''] c', c'))
      else (img @ [ValidationError InvalidChange], c))"

definition validateChanges :: "raw_change list \<Rightarrow> error + raw_change list" where
  "validateChanges cs =
     (let rs = map validateChange cs; errs = concat (map fst rs) in
      if length errs = 1 then Inl (errs ! 0)
      else if length errs > 1 then Inl (MultiError errs)
      else Inr (map snd rs))"

subsection \<open>\<^verbatim>\<open>normalizeChanges\<close>\<close>

text \<open>
  What \<^verbatim>\<open>getServers\<close>, \<^verbatim>\<open>getSvcs\<close> and \<^verbatim>\<open>getInsts\<close> have put into \<^verbatim>\<open>servers\<close>,
  \<^verbatim>\<open>svcs\<close> and \<^verbatim>\<open>insts\<close> is given. \<open>getImage\<close> and \<open>getCandidateImages\<close> stand for the
  methods of these names, \<open>None\<close> for their error.
\<close>

record server =
  srv_uuid :: string
  srv_hostname :: string

definition svcFromName :: "service list \<Rightarrow> (string \<rightharpoonup> service)" where
  "svcFromName svcs = foldl (\<lambda>m sv. m(svc_name sv \<mapsto> sv)) Map.empty svcs"

text \<open>The ways in which \<^verbatim>\<open>resolveChange\<close> ends: it throws, or it calls \<^verbatim>\<open>nextChange\<close>.\<close>

datatype resolved = Throws error | Fails error | Resolved change

text \<open>
  The reads of \<^verbatim>\<open>resolveChange\<close>. \<^verbatim>\<open>svcFromName[ch.service]\<close>: a value that is no string
  is taken to be the name of no service. \<^verbatim>\<open>insts[i].alias === ch.alias\<close> and the like hold
  for a string only.
\<close>

definition isStr :: "jsval option \<Rightarrow> string \<Rightarrow> bool" where
  "isStr x s = (x = Some (JsString s))"

definition strOf :: "jsval option \<Rightarrow> string" where
  "strOf x = (case x of Some (JsString s) \<Rightarrow> s | _ \<Rightarrow> [])"

definition findService :: "service list \<Rightarrow> jsval option \<Rightarrow> service option" where
  "findService svcs x = (case x of Some (JsString s) \<Rightarrow> svcFromName svcs s | _ \<Rightarrow> None)"

definition findAlias :: "inst list \<Rightarrow> jsval option \<Rightarrow> inst option" where
  "findAlias insts x =
     find (\<lambda>i. case inst_alias i of None \<Rightarrow> False | Some a \<Rightarrow> isStr x a) insts"

definition knownServer :: "server list \<Rightarrow> jsval option \<Rightarrow> bool" where
  "knownServer servers x =
     list_ex (\<lambda>s. isStr x (srv_uuid s) \<or> isStr x (srv_hostname s)) servers"

text \<open>
  \<^verbatim>\<open>resolveChange\<close>. The instance objects have no property \<^verbatim>\<open>uuid\<close>, so that the search
  by \<^verbatim>\<open>ch.uuid\<close> finds none. \<^verbatim>\<open>ch.instance\<close> is written by the search by \<^verbatim>\<open>ch.alias\<close>
  only; the string that the caller may have given as \<^verbatim>\<open>instance\<close> is left as it is by
  the code, and the record has no place for it: a change that has the key \<^verbatim>\<open>instance\<close>
  and passes \<^verbatim>\<open>validateChanges\<close> has no \<^verbatim>\<open>service\<close> and ends in the \<^verbatim>\<open>throw\<close>.
  \<^verbatim>\<open>self.getImage\<close> asserts that the uuid it is given is a string.
\<close>

definition resolveChange ::
  "service list \<Rightarrow> inst list \<Rightarrow> server list \<Rightarrow> (string \<Rightarrow> image option) \<Rightarrow>
     (service \<Rightarrow> image list option) \<Rightarrow> raw_change \<Rightarrow> resolved" where
  "resolveChange svcs insts servers getImage getCandidateImages ch =
     (if truthy (map_of ch ''service'') \<and> findService svcs (map_of ch ''service'') = None
      then Fails (UpdateError (UnknownService (strOf (map_of ch ''service''))))
      else if truthy (map_of ch ''uuid'')
      then Fails (UpdateError (UnknownInstanceUuid (strOf (map_of ch ''uuid''))))
      else if truthy (map_of ch ''alias'') \<and> findAlias insts (map_of ch ''alias'') = None
      then Fails (UpdateError (UnknownInstanceAlias (strOf (map_of ch ''alias''))))
      else
        (case (if truthy (map_of ch ''service'') then findService svcs (map_of ch ''service'')
               else None) of
           None \<Rightarrow> Throws (Error ''TODO'')
         | Some svc \<Rightarrow>
             if truthy (map_of ch ''server'') \<and> \<not> knownServer servers (map_of ch ''server'')
             then Fails (UpdateError (UnknownServer (strOf (map_of ch ''server''))))
             else
               (let ch' = \<lparr> ch_type = strOf (map_of ch ''type''),
                            ch_service = svc,
                            ch_instance = (if truthy (map_of ch ''alias'')
                                           then findAlias insts (map_of ch ''alias'') else None),
                            ch_server = (case map_of ch ''server'' of
                                           Some (JsString s) \<Rightarrow> Some s | _ \<Rightarrow> None),
                            ch_images = None, ch_image = None, ch_inst = None,
                            ch_insts = None \<rparr> in
                if truthy (map_of ch ''image'') then
                  (case map_of ch ''image'' of
                     Some (JsString u) \<Rightarrow>
                       (case getImage u of
                          None \<Rightarrow> Fails (UpdateError (UnknownImage u))
                        | Some img \<Rightarrow> Resolved (ch'\<lparr>ch_images := Some [img]\<rparr>))
                   | _ \<Rightarrow> Throws AssertionError)
                else
                  (case getCandidateImages svc of
                     None \<Rightarrow> Fails (InternalError ''error finding candidate images'')
                   | Some imgs \<Rightarrow> Resolved (ch'\<lparr>ch_images := Some imgs\<rparr>)))))"

text \<open>
  \<^verbatim>\<open>vasync.forEachParallel\<close> calls \<^verbatim>\<open>resolveChange\<close> on every change in turn; a \<^verbatim>\<open>throw\<close>
  leaves it at once, and otherwise the errors given to \<^verbatim>\<open>nextChange\<close> come back as one
  \<open>MultiError\<close>.
\<close>

fun thrown :: "resolved list \<Rightarrow> error option" where
  "thrown [] = None"
| "thrown (Throws e # _) = Some e"
| "thrown (_ # rs) = thrown rs"

fun failed :: "resolved list \<Rightarrow> error list" where
  "failed [] = []"
| "failed (Fails e # rs) = e # failed rs"
| "failed (_ # rs) = failed rs"

fun resolvedChanges :: "resolved list \<Rightarrow> change list" where
  "resolvedChanges [] = []"
| "resolvedChanges (Resolved c # rs) = c # resolvedChanges rs"
| "resolvedChanges (_ # rs) = resolvedChanges rs"

definition normalizeChanges ::
  "service list \<Rightarrow> inst list \<Rightarrow> server list \<Rightarrow> (string \<Rightarrow> image option) \<Rightarrow>
     (service \<Rightarrow> image list option) \<Rightarrow> raw_change list \<Rightarrow> error + change list" where
  "normalizeChanges svcs insts servers getImage getCandidateImages cs =
     (let rs = map (resolveChange svcs insts servers getImage getCandidateImages) cs in
      case thrown rs of
        Some e \<Rightarrow> Inl e
      | None \<Rightarrow> if failed rs \<noteq> [] then Inl (MultiError (failed rs))
                else Inr (resolvedChanges rs))"

subsection \<open>\<^verbatim>\<open>checkForConflictingChanges\<close>\<close>

text \<open>\<^verbatim>\<open>String.prototype.split('-')\<close>\<close>

fun splitDash :: "string \<Rightarrow> string list" where
  "splitDash [] = [[]]"
| "splitDash (c # cs) =
     (if c = CHR ''-'' then [] # splitDash cs
      else (case splitDash cs of p # ps \<Rightarrow> (c # p) # ps | [] \<Rightarrow> [[c]]))"

text \<open>\<^verbatim>\<open>ch.type.split('-')[1]\<close>, \<open>None\<close> for \<^verbatim>\<open>undefined\<close>.\<close>

definition typeTarg :: "change \<Rightarrow> string option" where
  "typeTarg ch = (case splitDash (ch_type ch) of _ # t # _ \<Rightarrow> Some t | _ \<Rightarrow> None)"

definition reprFromChange :: "change \<Rightarrow> repr" where
  "reprFromChange ch =
     (ch_type ch, svc_name (ch_service ch), map_option inst_instance (ch_instance ch))"

text \<open>
  The first loop, with the dictionaries \<^verbatim>\<open>changeFromSvc\<close> and \<^verbatim>\<open>changeFromInst\<close>. A type
  whose second part is neither \<^verbatim>\<open>service\<close> nor \<^verbatim>\<open>instance\<close> fails \<^verbatim>\<open>assert.equal\<close>;
  reading \<^verbatim>\<open>ch.instance.instance\<close> of a change without \<^verbatim>\<open>instance\<close> throws a TypeError.
\<close>

fun conflictLoop1 ::
  "(string \<rightharpoonup> change) \<Rightarrow> (string \<rightharpoonup> change) \<Rightarrow> change list \<Rightarrow> error + (string \<rightharpoonup> change)" where
  "conflictLoop1 changeFromSvc changeFromInst [] = Inr changeFromSvc"
| "conflictLoop1 changeFromSvc changeFromInst (ch # rest) =
     (if typeTarg ch = Some ''service'' then
        (let svc = svc_name (ch_service ch) in
         case changeFromSvc svc of
           Some other \<Rightarrow> Inl (UpdateError (MultipleChangesSameService
                                  (reprFromChange ch) (reprFromChange other)))
         | None \<Rightarrow> conflictLoop1 (changeFromSvc(svc \<mapsto> ch)) changeFromInst rest)
      else if typeTarg ch \<noteq> Some ''instance'' then Inl AssertionError
      else (case ch_instance ch of
              None \<Rightarrow> Inl TypeError
            | Some i \<Rightarrow>
                (case changeFromInst (inst_instance i) of
                   Some other \<Rightarrow> Inl (UpdateError (MultipleChangesSameInstance
                                          (reprFromChange ch) (reprFromChange other)))
                 | None \<Rightarrow> conflictLoop1 changeFromSvc
                             (changeFromInst(inst_instance i \<mapsto> ch)) rest)))"

fun conflictLoop2 :: "(string \<rightharpoonup> change) \<Rightarrow> change list \<Rightarrow> error + unit" where
  "conflictLoop2 changeFromSvc [] = Inr ()"
| "conflictLoop2 changeFromSvc (ch # rest) =
     (if typeTarg ch = Some ''instance'' then
        (case changeFromSvc (svc_name (ch_service ch)) of
           Some other \<Rightarrow> Inl (UpdateError (ServiceAndInstance
                                  (reprFromChange ch) (reprFromChange other)))
         | None \<Rightarrow> conflictLoop2 changeFromSvc rest)
      else conflictLoop2 changeFromSvc rest)"

definition checkForConflictingChanges :: "change list \<Rightarrow> error + unit" where
  "checkForConflictingChanges cs =
     (case conflictLoop1 Map.empty Map.empty cs of
        Inl e \<Rightarrow> Inl e
      | Inr changeFromSvc \<Rightarrow> conflictLoop2 changeFromSvc cs)"

text \<open>
  The first steps of the pipeline of \<^verbatim>\<open>genUpdatePlan\<close>, up to the check for conflicts:
  \<^verbatim>\<open>validateChanges\<close>, \<^verbatim>\<open>normalizeChanges\<close>, \<^verbatim>\<open>checkForConflictingChanges\<close>.
\<close>

definition conflictStage ::
  "service list \<Rightarrow> inst list \<Rightarrow> server list \<Rightarrow> (string \<Rightarrow> image option) \<Rightarrow>
     (service \<Rightarrow> image list option) \<Rightarrow> raw_change list \<Rightarrow> error + change list" where
  "conflictStage svcs insts servers getImage getCandidateImages rcs =
     (case validateChanges rcs of
        Inl e \<Rightarrow> Inl e
      | Inr vs \<Rightarrow>
          (case normalizeChanges svcs insts servers getImage getCandidateImages vs of
             Inl e \<Rightarrow> Inl e
           | Inr cs \<Rightarrow>
               (case checkForConflictingChanges cs of
                  Inl e \<Rightarrow> Inl e
                | Inr _ \<Rightarrow> Inr cs)))"

text \<open>
  The claim in the words of the specification. A change is service-level when its type
  ends in \<^verbatim>\<open>-service\<close> and instance-level when it ends in \<^verbatim>\<open>-instance\<close>; a normalized
  instance-level change carries its instance object.
\<close>

definition serviceLevel :: "change \<Rightarrow> bool" where
  "serviceLevel ch = (typeTarg ch = Some ''service'')"

definition instanceLevel :: "change \<Rightarrow> bool" where
  "instanceLevel ch = (typeTarg ch = Some ''instance'' \<and> ch_instance ch \<noteq> None)"

definition normalized :: "change list \<Rightarrow> bool" where
  "normalized cs = list_all (\<lambda>ch. serviceLevel ch \<or> instanceLevel ch) cs"

definition svcOf :: "change \<Rightarrow> string" where
  "svcOf ch = svc_name (ch_service ch)"

definition twoOnSameService :: "change list \<Rightarrow> bool" where
  "twoOnSameService cs = (\<not> distinct (map svcOf (filter serviceLevel cs)))"

definition twoOnSameInstance :: "change list \<Rightarrow> bool" where
  "twoOnSameInstance cs =
     (\<not> distinct (map (map_option inst_instance \<circ> ch_instance) (filter instanceLevel cs)))"

definition serviceAndInstanceOfIt :: "change list \<Rightarrow> bool" where
  "serviceAndInstanceOfIt cs =
     list_ex (\<lambda>a. serviceLevel a \<and> list_ex (\<lambda>b. instanceLevel b \<and> svcOf b = svcOf a) cs) cs"

definition hasConflict :: "change list \<Rightarrow> bool" where
  "hasConflict cs = (twoOnSameService cs \<or> twoOnSameInstance cs \<or> serviceAndInstanceOfIt cs)"

fun isConflictError :: "error \<Rightarrow> bool" where
  "isConflictError (UpdateError (MultipleChangesSameService _ _)) = True"
| "isConflictError (UpdateError (MultipleChangesSameInstance _ _)) = True"
| "isConflictError (UpdateError (ServiceAndInstance _ _)) = True"
| "isConflictError _ = False"

fun isSameServiceError :: "error \<Rightarrow> bool" where
  "isSameServiceError (UpdateError (MultipleChangesSameService _ _)) = True"
| "isSameServiceError _ = False"

fun isValidationError :: "error \<Rightarrow> bool" where
  "isValidationError (ValidationError _) = True"
| "isValidationError _ = False"

text \<open>
  The invariant of the first loop: the changes still to come bring no service and no
  instance twice, and none that is already a key of the dictionaries.
\<close>

definition instKey :: "change \<Rightarrow> string option" where
  "instKey ch = map_option inst_instance (ch_instance ch)"

definition loopGood :: "(string \<rightharpoonup> change) \<Rightarrow> (string \<rightharpoonup> change) \<Rightarrow> change list \<Rightarrow> bool" where
  "loopGood fs fi rest =
     (distinct (map svcOf (filter serviceLevel rest)) \<and>
      set (map svcOf (filter serviceLevel rest)) \<inter> dom fs = {} \<and>
      distinct (map instKey (filter instanceLevel rest)) \<and>
      set (map instKey (filter instanceLevel rest)) \<inter> Some ` dom fi = {})"

subsection \<open>\<^verbatim>\<open>dropNoops\<close>\<close>

text \<open>
  The callback given to \<^verbatim>\<open>changes.filter\<close>: \<open>Inr True\<close> keeps the change. The keys of
  \<^verbatim>\<open>currImgUuids\<close> are the distinct images of the instances of the change's service; only
  their number and, when there is one, that one are used.
\<close>

definition dropNoopsKeep :: "bool \<Rightarrow> inst list \<Rightarrow> change \<Rightarrow> error + bool" where
  "dropNoopsKeep forceSameImage insts ch =
     (if ch_type ch = ''update-service'' \<or> ch_type ch = ''update-instance'' then
        (case ch_images ch of
           None \<Rightarrow> Inl TypeError
         | Some images \<Rightarrow>
             if length images = 0 then Inr False
             else if \<not> forceSameImage then
               (let keys = remdups (map inst_image
                             (filter (\<lambda>i. inst_service i = svc_name (ch_service ch)) insts));
                    pushed = (if length keys = 0
                              then (case svc_params (ch_service ch) of
                                      None \<Rightarrow> Inl TypeError
                                    | Some None \<Rightarrow> Inl AssertionError
                                    | Some (Some u) \<Rightarrow>
                                        if u = [] then Inl AssertionError else Inr [u])
                              else Inr keys)
                in case pushed of
                     Inl e \<Rightarrow> Inl e
                   | Inr currImgUuids \<Rightarrow>
                       if length currImgUuids = 1 then
                         (let sansCurr = filter (\<lambda>img. img_uuid img \<noteq> currImgUuids ! 0) images
                          in if length sansCurr = 0 then Inr False else Inr True)
                       else Inr True)
             else Inr True)
      else Inr True)"

fun dropNoops :: "bool \<Rightarrow> inst list \<Rightarrow> change list \<Rightarrow> error + change list" where
  "dropNoops forceSameImage insts [] = Inr []"
| "dropNoops forceSameImage insts (ch # rest) =
     (case dropNoopsKeep forceSameImage insts ch of
        Inl e \<Rightarrow> Inl e
      | Inr keep \<Rightarrow>
          (case dropNoops forceSameImage insts rest of
             Inl e \<Rightarrow> Inl e
           | Inr kept \<Rightarrow> Inr (if keep then ch # kept else kept)))"

text \<open>
  What the code treats as a no-op, in plain terms: the images an update is compared with
  are those of the instances of the service or, when it has none, the service's own
  \<^verbatim>\<open>params.image_uuid\<close>.
\<close>

definition isUpdate :: "change \<Rightarrow> bool" where
  "isUpdate ch = (ch_type ch = ''update-service'' \<or> ch_type ch = ''update-instance'')"

definition candidates :: "change \<Rightarrow> image list" where
  "candidates ch = (case ch_images ch of None \<Rightarrow> [] | Some imgs \<Rightarrow> imgs)"

definition currentImages :: "inst list \<Rightarrow> change \<Rightarrow> string set" where
  "currentImages insts ch =
     (let used = inst_image ` {i \<in> set insts. inst_service i = svc_name (ch_service ch)}
      in if used = {} then (case svc_params (ch_service ch) of
                              Some (Some u) \<Rightarrow> {u} | _ \<Rightarrow> {})
         else used)"

definition noop :: "bool \<Rightarrow> inst list \<Rightarrow> change \<Rightarrow> bool" where
  "noop forceSameImage insts ch =
     (isUpdate ch \<and>
      (candidates ch = [] \<or>
       (\<not> forceSameImage \<and>
        (\<exists>u. currentImages insts ch = {u} \<and> (\<forall>img \<in> set (candidates ch). img_uuid img = u)))))"

text \<open>
  The inputs on which the filter callback does not throw: every update carries its
  candidate list and, unless \<^verbatim>\<open>forceSameImage\<close>, a service without instances has a
  non-empty \<^verbatim>\<open>params.image_uuid\<close>.
\<close>

definition dropNoopsDefined :: "bool \<Rightarrow> inst list \<Rightarrow> change \<Rightarrow> bool" where
  "dropNoopsDefined forceSameImage insts ch =
     (isUpdate ch \<longrightarrow>
        ch_images ch \<noteq> None \<and>
        (candidates ch \<noteq> [] \<and> \<not> forceSameImage \<and>
         \<not> list_ex (\<lambda>i. inst_service i = svc_name (ch_service ch)) insts
           \<longrightarrow> (\<exists>u. svc_params (ch_service ch) = Some (Some u) \<and> u \<noteq> [])))"

text \<open>
  The claim in the words of the specification: an update without candidates is dropped
  and, unless \<^verbatim>\<open>forceSameImage\<close>, so is an \<^verbatim>\<open>update-service\<close> whose instances all run one
  image that is the only candidate.
\<close>

definition noopAsSpecified :: "bool \<Rightarrow> inst list \<Rightarrow> change \<Rightarrow> bool" where
  "noopAsSpecified forceSameImage insts ch =
     ((isUpdate ch \<and> candidates ch = []) \<or>
      (\<not> forceSameImage \<and> ch_type ch = ''update-service'' \<and>
       (\<exists>u. inst_image ` {i \<in> set insts. inst_service i = svc_name (ch_service ch)} = {u}
            \<and> img_uuid ` set (candidates ch) = {u})))"

text \<open>The images of the instances of the service of a change, as a list.\<close>

definition used :: "inst list \<Rightarrow> change \<Rightarrow> string list" where
  "used insts ch =
     map inst_image (filter (\<lambda>i. inst_service i = svc_name (ch_service ch)) insts)"

subsection \<open>\<^verbatim>\<open>createPlan\<close>\<close>

text \<open>
  The inner loop of the \<^verbatim>\<open>update-service\<close> case over the copy \<^verbatim>\<open>targ\<close>; \<^verbatim>\<open>ch.image.uuid\<close>
  is read only for an instance of the service, and throws when the change has no image.
\<close>

fun updateInsts :: "change \<Rightarrow> inst list \<Rightarrow> error + inst list" where
  "updateInsts ch [] = Inr []"
| "updateInsts ch (i # rest) =
     (if inst_service i = svc_name (ch_service ch) then
        (case ch_image ch of
           None \<Rightarrow> Inl TypeError
         | Some img \<Rightarrow>
             (case updateInsts ch rest of
                Inl e \<Rightarrow> Inl e
              | Inr rest' \<Rightarrow>
                  Inr (i\<lparr>inst_image := img_uuid img, inst_version := img_version img\<rparr> # rest')))
      else (case updateInsts ch rest of
              Inl e \<Rightarrow> Inl e
            | Inr rest' \<Rightarrow> Inr (i # rest')))"

fun applyChanges :: "inst list \<Rightarrow> change list \<Rightarrow> error + inst list" where
  "applyChanges targ0 [] = Inr targ0"
| "applyChanges targ0 (ch # rest) =
     (if ch_type ch = ''update-service'' then
        (case updateInsts ch targ0 of
           Inl e \<Rightarrow> Inl e
         | Inr targ1 \<Rightarrow> applyChanges targ1 rest)
      else Inl (InternalError (''unknown ch.type: '' @ ch_type ch)))"

definition UPDATE_PLAN_FORMAT_VER :: int where
  "UPDATE_PLAN_FORMAT_VER = 1"

text \<open>The constructor \<^verbatim>\<open>UpdatePlan\<close>.\<close>

definition UpdatePlan :: "inst list \<Rightarrow> inst list \<Rightarrow> change list \<Rightarrow> bool \<Rightarrow> plan" where
  "UpdatePlan c t chs ji =
     \<lparr> v = UPDATE_PLAN_FORMAT_VER, curr = c, targ = t, changes = chs, justImages = ji \<rparr>"

definition createPlan :: "inst list \<Rightarrow> change list \<Rightarrow> bool \<Rightarrow> error + plan" where
  "createPlan insts chs ji =
     (case applyChanges insts chs of
        Inl e \<Rightarrow> Inl e
      | Inr t \<Rightarrow> Inr (UpdatePlan insts t chs ji))"

text \<open>
  \<open>sameButImage a b\<close>: the instance \<open>b\<close> is \<open>a\<close> in every field other than \<^verbatim>\<open>image\<close> and
  \<^verbatim>\<open>version\<close>.
\<close>

definition sameButImage :: "inst \<Rightarrow> inst \<Rightarrow> bool" where
  "sameButImage a b = (b = a\<lparr>inst_image := inst_image b, inst_version := inst_version b\<rparr>)"

text \<open>
  What one change, and then a list of changes, makes of an instance: \<open>stepRel ch a b\<close>
  for the inner loop, \<open>planRel chs a b\<close> for \<^verbatim>\<open>createPlan\<close>. When no two changes are on
  the same service, an instance of the service of a change carries the image of that change.
\<close>

definition stepRel :: "change \<Rightarrow> inst \<Rightarrow> inst \<Rightarrow> bool" where
  "stepRel ch a b =
     (sameButImage a b \<and> inst_service b = inst_service a \<and>
      (if inst_service a = svcOf ch
       then (\<exists>img. ch_image ch = Some img \<and> inst_image b = img_uuid img
                    \<and> inst_version b = img_version img)
       else b = a))"

definition planRel :: "change list \<Rightarrow> inst \<Rightarrow> inst \<Rightarrow> bool" where
  "planRel chs a b =
     (sameButImage a b \<and> inst_service b = inst_service a \<and> inst_instance b = inst_instance a \<and>
      (distinct (map svcOf chs) \<longrightarrow>
        (\<forall>ch \<in> set chs. inst_service a = svcOf ch \<longrightarrow>
           (\<exists>img. ch_image ch = Some img \<and> inst_image b = img_uuid img
                  \<and> inst_version b = img_version img))) \<and>
      (inst_service a \<notin> svcOf ` set chs \<longrightarrow> b = a))"

section \<open>The replicated-database procedure (\<^verbatim>\<open>lib/procedures/update-manatee-v2.js\<close>)\<close>

subsection \<open>Shard status\<close>

text \<open>
  One peer of the output of \<^verbatim>\<open>manatee-adm status\<close>: \<open>repl\<close> is the \<^verbatim>\<open>repl\<close> object (its
  keys with their values), \<open>server_uuid\<close> the property that \<^verbatim>\<open>getShardServers\<close> adds.
  A \<open>shard\<close> is the object \<^verbatim>\<open>obj.sdc\<close>, and also \<^verbatim>\<open>arg.shard\<close>.
\<close>

record peer =
  zoneId :: string
  repl :: "(string \<times> string) list option"
  server_uuid :: "string option"

record shard =
  primary :: "peer option"
  sync :: "peer option"
  async :: "peer option"

datatype mode = Transition | Empty | Primary | Sync | Async

definition emptyShard :: shard where
  "emptyShard = \<lparr> primary = None, sync = None, async = None \<rparr>"

text \<open>
  \<^verbatim>\<open>p.repl && !p.repl.length && Object.keys(p.repl).length === 0\<close> and
  \<^verbatim>\<open>p.repl && p.repl.sync_state === s\<close>.
\<close>

definition replUp :: "peer \<Rightarrow> bool" where
  "replUp p =
     (case repl p of
        None \<Rightarrow> False
      | Some kvs \<Rightarrow> (case map_of kvs ''length'' of None \<Rightarrow> True | Some l \<Rightarrow> l = [])
                    \<and> length kvs = 0)"

definition syncState :: "peer \<Rightarrow> string \<Rightarrow> bool" where
  "syncState p s =
     (case repl p of None \<Rightarrow> False | Some kvs \<Rightarrow> map_of kvs ''sync_state'' = Some s)"

text \<open>The computation of \<^verbatim>\<open>mode\<close> in \<^verbatim>\<open>waitForManatee\<close>; the argument is \<^verbatim>\<open>obj.sdc\<close>.\<close>

definition shardMode :: "shard option \<Rightarrow> mode" where
  "shardMode sdc =
     (case sdc of
        None \<Rightarrow> Transition
      | Some s \<Rightarrow>
          (case (primary s, sync s, async s) of
             (None, None, None) \<Rightarrow> Empty
           | (Some p, Some sy, Some a) \<Rightarrow>
               if replUp a \<and> syncState sy ''async'' then Async else Transition
           | (Some p, Some sy, None) \<Rightarrow>
               if replUp sy \<and> syncState p ''sync'' then Sync else Transition
           | (Some p, None, _) \<Rightarrow> if replUp p then Primary else Transition
           | (None, _, _) \<Rightarrow> Transition))"

subsection \<open>The outside world\<close>

text \<open>
  Every command the procedure runs outside of the process is an \<open>action\<close>. The world
  answers through \<open>oracle\<close>, a function of a world state of any type \<open>'w\<close>; a theorem
  that holds for every oracle holds whatever the cluster does. The steps of
  \<^verbatim>\<open>./shared\<close> (\<^verbatim>\<open>s.getUserScript\<close> and the like) are not part of this file of the
  repository; they appear as actions that succeed or fail.
\<close>

datatype action =
    GetUserScript
  | WriteOldUserScriptForRollback
  | UpdateSvcUserScript
  | UpdateVmUserScript
  | UpdateVmUserScriptRemote "string option" string
  | UpdateSapiSvc
  | GetShardStatusLocally "string option"
  | GetShardStatus "string option" string
  | DisableManatee "string option" string
  | ImgadmInstall
  | ImgadmInstallRemote "string option" image
  | ReprovisionRemote "string option" string image
  | Sleep nat
  | VmadmLookupSapi
  | SetSapiProtoMode "string option"
  | SvcadmRestartSapi "string option"
  | PingPostgres "string option" string
  | SapiSetMode string

datatype reply = Done | Failed string | Status "shard option" | Stdout string

text \<open>
  The log holds every action in the order in which it was started and, after it, what a
  wait has seen when it ended well: \<open>Reached m server zone\<close> when \<^verbatim>\<open>waitForManatee\<close> saw
  the mode \<open>m\<close> it waited for in the status asked of the peer \<open>zone\<close> on \<open>server\<close>,
  \<open>Promoted server zone\<close> when \<^verbatim>\<open>waitForShardPromotion\<close> saw another primary in the status
  asked of that peer, \<open>PostgresUp\<close> when \<^verbatim>\<open>waitForPostgresUp\<close> saw the ping succeed.
\<close>

datatype event =
    Call action
  | Reached mode "string option" string
  | Promoted "string option" string
  | PostgresUp

datatype failure = CallbackError string | Thrown error

record 'w mst =
  world :: 'w
  log :: "event list"
  arg_shard :: shard
  manateeUUID :: "string option"
  sapiUUID :: "string option"

type_synonym 'w outcome = "failure option \<times> 'w mst"

type_synonym 'w step = "'w mst \<Rightarrow> 'w outcome option"

definition perform :: "(action \<Rightarrow> 'w \<Rightarrow> reply \<times> 'w) \<Rightarrow> action \<Rightarrow> 'w mst \<Rightarrow> reply \<times> 'w mst" where
  "perform oracle a st =
     (case oracle a (world st) of
        (r, w') \<Rightarrow> (r, st\<lparr>world := w', log := log st @ [Call a]\<rparr>))"

definition seen :: "event \<Rightarrow> 'w mst \<Rightarrow> 'w mst" where
  "seen e st = st\<lparr>log := log st @ [e]\<rparr>"


text \<open>\<^verbatim>\<open>setTimeout(f, ms)\<close>: the world moves on, nothing can fail.\<close>

definition sleep :: "(action \<Rightarrow> 'w \<Rightarrow> reply \<times> 'w) \<Rightarrow> nat \<Rightarrow> 'w mst \<Rightarrow> 'w mst" where
  "sleep oracle ms st = snd (perform oracle (Sleep ms) st)"

text \<open>
  \<^verbatim>\<open>vasync.pipeline\<close> is a library function: it calls the functions in series, each with
  the callback \<^verbatim>\<open>next\<close>, and ends with the first error passed to \<^verbatim>\<open>next\<close> (or thrown).
  \<open>None\<close> is a step that never calls back.
\<close>

fun pipeline :: "'w step list \<Rightarrow> 'w step" where
  "pipeline [] st = Some (None, st)"
| "pipeline (f # fs) st =
     (case f st of
        None \<Rightarrow> None
      | Some (Some e, st') \<Rightarrow> Some (Some e, st')
      | Some (None, st') \<Rightarrow> pipeline fs st')"

subsection \<open>The helpers of \<^verbatim>\<open>execute\<close>\<close>

text \<open>
  \<^verbatim>\<open>waitForManatee(state, server, zone, callback)\<close>, from the value \<open>counter\<close> of its
  counter: \<^verbatim>\<open>getShardStatus\<close>, then \<^verbatim>\<open>counter += 1\<close>, then the tests in the order of the
  source. A reply that is no shard status makes \<^verbatim>\<open>JSON.parse\<close> throw.
\<close>

definition waitLimit :: nat where
  "waitLimit = 180"

definition timeout15m :: failure where
  "timeout15m = CallbackError ''Timeout (15m) waiting for manatee to reach %s''"

function waitForManateeFrom ::
  "(action \<Rightarrow> 'w \<Rightarrow> reply \<times> 'w) \<Rightarrow> mode \<Rightarrow> string option \<Rightarrow> string \<Rightarrow> nat \<Rightarrow> 'w mst
     \<Rightarrow> 'w outcome" where
  "waitForManateeFrom oracle state server zone counter st =
     (case perform oracle (GetShardStatus server zone) st of
        (Failed e, st') \<Rightarrow> (Some (CallbackError e), st')
      | (Status obj, st') \<Rightarrow>
          if shardMode obj = state then (None, seen (Reached state server zone) st')
          else if counter + 1 < waitLimit
          then waitForManateeFrom oracle state server zone (counter + 1) (sleep oracle 5000 st')
          else (Some timeout15m, st')
      | (_, st') \<Rightarrow> (Some (Thrown SyntaxError), st'))"
  by pat_completeness auto
termination
  by (relation "measure (\<lambda>(oracle, state, server, zone, counter, st). waitLimit - counter)") auto

declare waitForManateeFrom.simps [simp del]

definition waitForManatee ::
  "(action \<Rightarrow> 'w \<Rightarrow> reply \<times> 'w) \<Rightarrow> mode \<Rightarrow> string option \<Rightarrow> string \<Rightarrow> 'w mst \<Rightarrow> 'w outcome" where
  "waitForManatee oracle state server zone st = waitForManateeFrom oracle state server zone 0 st"

text \<open>
  \<^verbatim>\<open>waitForPostgresUp\<close>: \<^verbatim>\<open>counter\<close> is declared with \<^verbatim>\<open>limit = 36\<close> and compared with it,
  and no statement changes it: a failed ping is always followed by another one. The
  first argument bounds the number of pings of the model; \<open>None\<close> is a wait that the
  bound cut.
\<close>

fun waitForPostgresUpFrom ::
  "nat \<Rightarrow> (action \<Rightarrow> 'w \<Rightarrow> reply \<times> 'w) \<Rightarrow> string option \<Rightarrow> string \<Rightarrow> nat \<Rightarrow> 'w step" where
  "waitForPostgresUpFrom 0 oracle server zone counter st = None"
| "waitForPostgresUpFrom (Suc fuel) oracle server zone counter st =
     (case perform oracle (PingPostgres server zone) st of
        (Failed e, st') \<Rightarrow>
          if counter < 36
          then waitForPostgresUpFrom fuel oracle server zone counter (sleep oracle 5000 st')
          else Some (Some (CallbackError ''Timeout (60s) waiting for Postgres''), st')
      | (_, st') \<Rightarrow> Some (None, seen PostgresUp st'))"



text \<open>
  What a wait sees and how long it takes. \<open>replyAt oracle server zone st k\<close> is the
  answer to the poll number \<open>k\<close> (from 0) of a wait that starts in \<open>st\<close> and goes on
  polling, with a pause of 5000 ms after each poll. \<open>pollsIn\<close> counts the polls of a
  log and \<open>sleptMs\<close> adds up its pauses.
\<close>

definition nextPoll ::
  "(action \<Rightarrow> 'w \<Rightarrow> reply \<times> 'w) \<Rightarrow> string option \<Rightarrow> string \<Rightarrow> 'w mst \<Rightarrow> 'w mst" where
  "nextPoll oracle server zone st =
     sleep oracle 5000 (snd (perform oracle (GetShardStatus server zone) st))"

definition replyAt ::
  "(action \<Rightarrow> 'w \<Rightarrow> reply \<times> 'w) \<Rightarrow> string option \<Rightarrow> string \<Rightarrow> 'w mst \<Rightarrow> nat \<Rightarrow> reply" where
  "replyAt oracle server zone st k =
     fst (perform oracle (GetShardStatus server zone) ((nextPoll oracle server zone ^^ k) st))"

definition sees :: "mode \<Rightarrow> reply \<Rightarrow> bool" where
  "sees state r = (case r of Status obj \<Rightarrow> shardMode obj = state | _ \<Rightarrow> False)"

definition misses :: "mode \<Rightarrow> reply \<Rightarrow> bool" where
  "misses state r = (case r of Status obj \<Rightarrow> shardMode obj \<noteq> state | _ \<Rightarrow> False)"

fun isPoll :: "event \<Rightarrow> bool" where
  "isPoll (Call (GetShardStatus _ _)) = True"
| "isPoll _ = False"

definition pollsIn :: "event list \<Rightarrow> nat" where
  "pollsIn evs = length (filter isPoll evs)"

fun pauseOf :: "event \<Rightarrow> nat" where
  "pauseOf (Call (Sleep ms)) = ms"
| "pauseOf _ = 0"

definition sleptMs :: "event list \<Rightarrow> nat" where
  "sleptMs evs = sum_list (map pauseOf evs)"

text \<open>The events that a run from \<open>st\<close> to \<open>st'\<close> has added to the log.\<close>

definition newEvents :: "'w mst \<Rightarrow> 'w mst \<Rightarrow> event list" where
  "newEvents st st' = drop (length (log st)) (log st')"

text \<open>
  The shape of what a wait that starts with its counter at \<open>c\<close> adds to the log: at
  least one poll, no more polls than the counter leaves, a pause of 5000 ms between two
  polls, and, when the wait ends well, the mode it waited for as the last event.
\<close>

definition waitShape ::
  "mode \<Rightarrow> string option \<Rightarrow> string \<Rightarrow> nat \<Rightarrow> failure option \<Rightarrow> event list \<Rightarrow> bool" where
  "waitShape state server zone c r evs =
     (1 \<le> pollsIn evs \<and> pollsIn evs + c \<le> waitLimit \<and>
      sleptMs evs = 5000 * (pollsIn evs - 1) \<and>
      (r = None \<longrightarrow> last evs = Reached state server zone))"

subsection \<open>The pipeline of \<^verbatim>\<open>updateManatee\<close>\<close>


definition throwTypeError :: "'w step" where
  "throwTypeError st = Some (Some (Thrown TypeError), st)"


text \<open>\<^verbatim>\<open>arg.HA\<close>: \<^verbatim>\<open>change.insts && change.insts.length > 1\<close>.\<close>

definition isHA :: "change \<Rightarrow> bool" where
  "isHA ch = (case ch_insts ch of None \<Rightarrow> False | Some l \<Rightarrow> length l > 1)"









text \<open>
  \<^verbatim>\<open>verifyFullHA\<close>: the calls of \<^verbatim>\<open>next\<close> that the function makes, in order. After
  \<^verbatim>\<open>next('HA setup error')\<close> the function does not return, and goes on to
  \<^verbatim>\<open>return next()\<close>. The pipeline acts on the first call.
\<close>

definition verifyFullHA_calls :: "change \<Rightarrow> shard \<Rightarrow> failure option list" where
  "verifyFullHA_calls ch sh =
     (if \<not> isHA ch then [None]
      else (if sync sh = None \<or> async sh = None
            then [Some (CallbackError ''HA setup error'')] else []) @ [None])"

definition verifyFullHA :: "change \<Rightarrow> 'w step" where
  "verifyFullHA ch st =
     (case verifyFullHA_calls ch (arg_shard st) of
        r # _ \<Rightarrow> Some (r, st)
      | [] \<Rightarrow> None)"






























text \<open>
  \<^verbatim>\<open>updateManatee(change, nextSvc)\<close>, started in the world \<open>w\<close> with an empty log and a
  fresh \<^verbatim>\<open>arg\<close>.
\<close>

definition startState :: "'w \<Rightarrow> 'w mst" where
  "startState w =
     \<lparr> world = w, log = [], arg_shard = emptyShard, manateeUUID = None, sapiUUID = None \<rparr>"


subsection \<open>The order of the steps, as seen in the log\<close>


fun isMilestone :: "event \<Rightarrow> bool" where
  "isMilestone (Call (DisableManatee _ _)) = True"
| "isMilestone (Call (ReprovisionRemote _ _ _)) = True"
| "isMilestone (Call (SetSapiProtoMode _)) = True"
| "isMilestone (Call (SvcadmRestartSapi _)) = True"
| "isMilestone (Call (SapiSetMode _)) = True"
| "isMilestone (Call _) = False"
| "isMilestone _ = True"

definition milestones :: "event list \<Rightarrow> event list" where
  "milestones evs = filter isMilestone evs"

text \<open>
  \<open>emits I f X\<close>: from a state that satisfies \<open>I\<close>, the step \<open>f\<close> keeps \<open>I\<close>, adds the
  milestones \<open>X\<close> to the log when it calls back without error, and a prefix of \<open>X\<close> when
  it fails.
\<close>

definition emits :: "('w mst \<Rightarrow> bool) \<Rightarrow> 'w step \<Rightarrow> event list \<Rightarrow> bool" where
  "emits I f X =
     (\<forall>st r st'. I st \<longrightarrow> f st = Some (r, st') \<longrightarrow>
        I st' \<and> (\<exists>Y. milestones (log st') = milestones (log st) @ Y \<and> prefix Y X \<and>
                      (r = None \<longrightarrow> Y = X)))"








section \<open>The plan file (\<^verbatim>\<open>UpdatePlan.prototype.serialize\<close>)\<close>

text \<open>
  \<^verbatim>\<open>JSON.stringify(value, null, 4)\<close> prints a JSON value; the value is modelled, not its
  layout. A property whose value is \<^verbatim>\<open>undefined\<close> is left out; the order of the keys
  of an object is fixed here.
\<close>

datatype json =
    JNull | JBool bool | JNum int | JStr string | JArr "json list" | JObj "(string \<times> json) list"

definition optField :: "string \<Rightarrow> ('a \<Rightarrow> json) \<Rightarrow> 'a option \<Rightarrow> (string \<times> json) list" where
  "optField k enc x = (case x of None \<Rightarrow> [] | Some y \<Rightarrow> [(k, enc y)])"

definition toJSON_image :: "image \<Rightarrow> json" where
  "toJSON_image i =
     JObj [(''uuid'', JStr (img_uuid i)), (''name'', JStr (img_name i)),
           (''version'', JStr (img_version i)), (''published_at'', JStr (img_published_at i))]"

definition toJSON_inst :: "inst \<Rightarrow> json" where
  "toJSON_inst i =
     JObj ([(''type'', JStr (inst_type i)), (''service'', JStr (inst_service i)),
            (''instance'', JStr (inst_instance i)), (''version'', JStr (inst_version i)),
            (''image'', JStr (inst_image i)), (''server'', JStr (inst_server i)),
            (''hostname'', JStr (inst_hostname i))]
           @ optField ''zonename'' JStr (inst_zonename i)
           @ optField ''alias'' JStr (inst_alias i)
           @ optField ''ip'' JStr (inst_ip i))"

definition toJSON_service :: "service \<Rightarrow> json" where
  "toJSON_service sv =
     JObj ([(''name'', JStr (svc_name sv)), (''type'', JStr (svc_type sv))]
           @ optField ''params'' (\<lambda>ps. JObj (optField ''image_uuid'' JStr ps)) (svc_params sv))"

definition toJSON_change :: "change \<Rightarrow> json" where
  "toJSON_change c =
     JObj ([(''type'', JStr (ch_type c)), (''service'', toJSON_service (ch_service c))]
           @ optField ''instance'' toJSON_inst (ch_instance c)
           @ optField ''server'' JStr (ch_server c)
           @ optField ''images'' (\<lambda>l. JArr (map toJSON_image l)) (ch_images c)
           @ optField ''image'' toJSON_image (ch_image c)
           @ optField ''inst'' toJSON_inst (ch_inst c)
           @ optField ''insts'' (\<lambda>l. JArr (map toJSON_inst l)) (ch_insts c))"

definition serialize :: "plan \<Rightarrow> json" where
  "serialize p =
     JObj [(''v'', JNum (v p)),
           (''targ'', JArr (map toJSON_inst (targ p))),
           (''changes'', JArr (map toJSON_change (changes p))),
           (''justImages'', JBool (justImages p))]"

text \<open>
  Modelled from the spec: \<^verbatim>\<open>deserialize\<close>, which the repository does not have. The spec
  gives the fields of the plan file, \<^verbatim>\<open>{v, targ, changes, justImages}\<close>, and asks readers
  to reject every version other than 1. The reader below returns these four fields.
\<close>

record plan_file =
  pf_v :: int
  pf_targ :: "inst list"
  pf_changes :: "change list"
  pf_justImages :: bool

definition reqStr :: "(string \<times> json) list \<Rightarrow> string \<Rightarrow> string option" where
  "reqStr kvs k = (case map_of kvs k of Some (JStr x) \<Rightarrow> Some x | _ \<Rightarrow> None)"

definition optVal :: "(json \<Rightarrow> 'a option) \<Rightarrow> (string \<times> json) list \<Rightarrow> string \<Rightarrow> 'a option option" where
  "optVal dec kvs k = (case map_of kvs k of None \<Rightarrow> Some None | Some j \<Rightarrow> map_option Some (dec j))"

fun fromJSON_str :: "json \<Rightarrow> string option" where
  "fromJSON_str (JStr x) = Some x"
| "fromJSON_str _ = None"

fun fromJSON_list :: "(json \<Rightarrow> 'a option) \<Rightarrow> json \<Rightarrow> 'a list option" where
  "fromJSON_list dec (JArr js) = those (map dec js)"
| "fromJSON_list dec _ = None"

fun fromJSON_image :: "json \<Rightarrow> image option" where
  "fromJSON_image (JObj kvs) =
     Option.bind (reqStr kvs ''uuid'') (\<lambda>u.
     Option.bind (reqStr kvs ''name'') (\<lambda>n.
     Option.bind (reqStr kvs ''version'') (\<lambda>ve.
     Option.bind (reqStr kvs ''published_at'') (\<lambda>pa.
       Some \<lparr> img_uuid = u, img_name = n, img_version = ve, img_published_at = pa \<rparr>))))"
| "fromJSON_image _ = None"

fun fromJSON_inst :: "json \<Rightarrow> inst option" where
  "fromJSON_inst (JObj kvs) =
     Option.bind (reqStr kvs ''type'') (\<lambda>ty.
     Option.bind (reqStr kvs ''service'') (\<lambda>sv.
     Option.bind (reqStr kvs ''instance'') (\<lambda>ii.
     Option.bind (reqStr kvs ''version'') (\<lambda>ve.
     Option.bind (reqStr kvs ''image'') (\<lambda>im.
     Option.bind (reqStr kvs ''server'') (\<lambda>se.
     Option.bind (reqStr kvs ''hostname'') (\<lambda>ho.
     Option.bind (optVal fromJSON_str kvs ''zonename'') (\<lambda>zo.
     Option.bind (optVal fromJSON_str kvs ''alias'') (\<lambda>al.
     Option.bind (optVal fromJSON_str kvs ''ip'') (\<lambda>ip.
       Some \<lparr> inst_type = ty, inst_service = sv, inst_instance = ii, inst_version = ve,
              inst_image = im, inst_server = se, inst_hostname = ho,
              inst_zonename = zo, inst_alias = al, inst_ip = ip \<rparr>))))))))))"
| "fromJSON_inst _ = None"

fun fromJSON_params :: "json \<Rightarrow> string option option" where
  "fromJSON_params (JObj kvs) = optVal fromJSON_str kvs ''image_uuid''"
| "fromJSON_params _ = None"

fun fromJSON_service :: "json \<Rightarrow> service option" where
  "fromJSON_service (JObj kvs) =
     Option.bind (reqStr kvs ''name'') (\<lambda>n.
     Option.bind (reqStr kvs ''type'') (\<lambda>ty.
     Option.bind (optVal fromJSON_params kvs ''params'') (\<lambda>ps.
       Some \<lparr> svc_name = n, svc_type = ty, svc_params = ps \<rparr>)))"
| "fromJSON_service _ = None"

fun fromJSON_change :: "json \<Rightarrow> change option" where
  "fromJSON_change (JObj kvs) =
     Option.bind (reqStr kvs ''type'') (\<lambda>ty.
     Option.bind (Option.bind (map_of kvs ''service'') fromJSON_service) (\<lambda>sv.
     Option.bind (optVal fromJSON_inst kvs ''instance'') (\<lambda>ii.
     Option.bind (optVal fromJSON_str kvs ''server'') (\<lambda>se.
     Option.bind (optVal (fromJSON_list fromJSON_image) kvs ''images'') (\<lambda>ims.
     Option.bind (optVal fromJSON_image kvs ''image'') (\<lambda>im.
     Option.bind (optVal fromJSON_inst kvs ''inst'') (\<lambda>i1.
     Option.bind (optVal (fromJSON_list fromJSON_inst) kvs ''insts'') (\<lambda>is.
       Some \<lparr> ch_type = ty, ch_service = sv, ch_instance = ii, ch_server = se,
              ch_images = ims, ch_image = im, ch_inst = i1, ch_insts = is \<rparr>))))))))"
| "fromJSON_change _ = None"

fun deserialize :: "json \<Rightarrow> plan_file option" where
  "deserialize (JObj kvs) =
     (case (map_of kvs ''v'', map_of kvs ''targ'', map_of kvs ''changes'',
            map_of kvs ''justImages'') of
        (Some (JNum n), Some t, Some c, Some (JBool ji)) \<Rightarrow>
          if n \<noteq> 1 then None
          else Option.bind (fromJSON_list fromJSON_inst t) (\<lambda>t'.
               Option.bind (fromJSON_list fromJSON_change c) (\<lambda>c'.
                 Some \<lparr> pf_v = n, pf_targ = t', pf_changes = c', pf_justImages = ji \<rparr>))
      | _ \<Rightarrow> None)"
| "deserialize _ = None"

definition fileOf :: "plan \<Rightarrow> plan_file" where
  "fileOf p = \<lparr> pf_v = v p, pf_targ = targ p, pf_changes = changes p,
               pf_justImages = justImages p \<rparr>"

section \<open>Example data\<close>

definition mkInst :: "string \<Rightarrow> string \<Rightarrow> string \<Rightarrow> string \<Rightarrow> inst" where
  "mkInst svc iid img host =
     \<lparr> inst_type = ''vm'', inst_service = svc, inst_instance = iid, inst_version = ''1.0.0'',
       inst_image = img, inst_server = host, inst_hostname = host,
       inst_zonename = Some iid, inst_alias = None, inst_ip = None \<rparr>"

definition mkImage :: "string \<Rightarrow> image" where
  "mkImage u =
     \<lparr> img_uuid = u, img_name = ''img'', img_version = ''2.0.0'',
       img_published_at = ''2014-11-03T00:00:00Z'' \<rparr>"

definition mkService :: "string \<Rightarrow> service" where
  "mkService svc = \<lparr> svc_name = svc, svc_type = ''vm'', svc_params = None \<rparr>"

definition mkChange :: "string \<Rightarrow> string \<Rightarrow> change" where
  "mkChange ty svc =
     \<lparr> ch_type = ty, ch_service = mkService svc,
       ch_instance = None, ch_server = None, ch_images = None, ch_image = None,
       ch_inst = None, ch_insts = None \<rparr>"

definition updateService :: "string \<Rightarrow> image \<Rightarrow> change" where
  "updateService svc img = (mkChange ''update-service'' svc)\<lparr>ch_image := Some img\<rparr>"

text \<open>
  One \<^verbatim>\<open>cnapi\<close> instance on the headnode and two \<^verbatim>\<open>vmapi\<close> instances; both services are
  to be updated.
\<close>

definition planTwoVmapi :: plan where
  "planTwoVmapi =
     \<lparr> v = 1,
       curr = [mkInst ''cnapi'' ''c0'' ''IA'' ''headnode'',
               mkInst ''vmapi'' ''v0'' ''IA'' ''headnode'',
               mkInst ''vmapi'' ''v1'' ''IA'' ''cn1''],
       targ = [mkInst ''cnapi'' ''c0'' ''IB'' ''headnode'',
               mkInst ''vmapi'' ''v0'' ''IB'' ''headnode'',
               mkInst ''vmapi'' ''v1'' ''IB'' ''cn1''],
       changes = [updateService ''cnapi'' (mkImage ''IB''),
                  updateService ''vmapi'' (mkImage ''IB'')],
       justImages = False \<rparr>"

definition planJustImages :: plan where
  "planJustImages =
     \<lparr> v = 1,
       curr = [mkInst ''cnapi'' ''c0'' ''IA'' ''headnode''],
       targ = [mkInst ''cnapi'' ''c0'' ''IB'' ''headnode''],
       changes = [updateService ''cnapi'' (mkImage ''IB'')],
       justImages = True \<rparr>"

text \<open>An \<^verbatim>\<open>update-instance\<close> of the only \<^verbatim>\<open>cnapi\<close> instance, with its own image as candidate.\<close>

definition updateInstanceSame :: change where
  "updateInstanceSame =
     (mkChange ''update-instance'' ''cnapi'')
       \<lparr>ch_instance := Some (mkInst ''cnapi'' ''c0'' ''IA'' ''headnode''),
        ch_images := Some [mkImage ''IA'']\<rparr>"

definition updateServiceNewer :: change where
  "updateServiceNewer =
     (mkChange ''update-service'' ''cnapi'')\<lparr>ch_images := Some [mkImage ''IA'', mkImage ''IB'']\<rparr>"

definition updateServiceSame :: change where
  "updateServiceSame =
     (mkChange ''update-service'' ''vmapi'')\<lparr>ch_images := Some [mkImage ''IA'']\<rparr>"

definition twoInsts :: "inst list" where
  "twoInsts = [mkInst ''cnapi'' ''c0'' ''IA'' ''headnode'', mkInst ''vmapi'' ''v0'' ''IA'' ''headnode'']"

text \<open>The third boundary scenario: a change to \<^verbatim>\<open>imgapi\<close> and one to an instance of it.\<close>

definition conflictExample :: "change list" where
  "conflictExample =
     [updateService ''imgapi'' (mkImage ''IB''),
      (mkChange ''update-instance'' ''imgapi'')
        \<lparr>ch_instance := Some (mkInst ''imgapi'' ''imgapi-inst-0'' ''IA'' ''headnode'')\<rparr>]"

text \<open>
  A data centre with the \<^verbatim>\<open>imgapi\<close> zone and the \<^verbatim>\<open>provisioner\<close> agent on its headnode,
  and the changes that a caller asks for: the service \<^verbatim>\<open>provisioner\<close> and its instance on
  the headnode; the service \<^verbatim>\<open>imgapi\<close> and its instance \<^verbatim>\<open>imgapi-inst-0\<close>; the instance
  of \<^verbatim>\<open>provisioner\<close> on the headnode alone.
\<close>

definition dcServices :: "service list" where
  "dcServices = [mkService ''imgapi'', (mkService ''provisioner'')\<lparr>svc_type := ''agent''\<rparr>]"

definition dcInsts :: "inst list" where
  "dcInsts =
     [(mkInst ''imgapi'' ''imgapi-inst-0'' ''IA'' ''headnode'')\<lparr>inst_alias := Some ''imgapi0''\<rparr>,
      (mkInst ''provisioner'' ''headnode/provisioner'' ''IA'' ''headnode'')
        \<lparr>inst_type := ''agent'', inst_zonename := None\<rparr>]"

definition dcServers :: "server list" where
  "dcServers = [\<lparr> srv_uuid = ''564d0b8e'', srv_hostname = ''headnode'' \<rparr>]"

definition askServiceAndAgentInstance :: "raw_change list" where
  "askServiceAndAgentInstance =
     [[(''service'', JsString ''provisioner'')],
      [(''service'', JsString ''provisioner''), (''server'', JsString ''headnode'')]]"

definition askServiceAndVmInstance :: "raw_change list" where
  "askServiceAndVmInstance =
     [[(''service'', JsString ''imgapi'')],
      [(''instance'', JsString ''imgapi-inst-0'')]]"

definition askAgentInstance :: "raw_change list" where
  "askAgentInstance =
     [[(''service'', JsString ''provisioner''), (''server'', JsString ''headnode'')]]"

definition askByAlias :: "raw_change list" where
  "askByAlias =
     [[(''service'', JsString ''imgapi''), (''alias'', JsString ''imgapi0'')]]"
text \<open>
  A shard of three peers \<open>Z0\<close>, \<open>Z1\<close>, \<open>Z2\<close> on three servers, in the modes that
  \<^verbatim>\<open>manatee-adm status\<close> shows while it is updated.
\<close>

definition mkPeer :: "string \<Rightarrow> (string \<times> string) list \<Rightarrow> peer" where
  "mkPeer z r = \<lparr> zoneId = z, repl = Some r, server_uuid = None \<rparr>"

definition asyncModeShard :: "string \<Rightarrow> string \<Rightarrow> string \<Rightarrow> shard" where
  "asyncModeShard p sy a =
     \<lparr> primary = Some (mkPeer p [(''sync_state'', ''sync'')]),
       sync = Some (mkPeer sy [(''sync_state'', ''async'')]),
       async = Some (mkPeer a []) \<rparr>"

definition syncModeShard :: "string \<Rightarrow> string \<Rightarrow> shard" where
  "syncModeShard p sy =
     \<lparr> primary = Some (mkPeer p [(''sync_state'', ''sync'')]),
       sync = Some (mkPeer sy []),
       async = None \<rparr>"







text \<open>A shard that needs three polls to show the async mode; the state counts the polls.\<close>

definition slowOracle :: "action \<Rightarrow> nat \<Rightarrow> reply \<times> nat" where
  "slowOracle a n =
     (case a of
        GetShardStatus _ _ \<Rightarrow>
          (Status (Some (if n < 2 then syncModeShard ''Z0'' ''Z1''
                         else asyncModeShard ''Z0'' ''Z1'' ''Z2'')), Suc n)
      | _ \<Rightarrow> (Done, n))"

text \<open>A shard that shows one status for ever, and a world in which reprovisioning fails.\<close>

definition fixedOracle :: "shard \<Rightarrow> action \<Rightarrow> unit \<Rightarrow> reply \<times> unit" where
  "fixedOracle sh a u =
     (case a of
        GetShardStatus _ _ \<Rightarrow> (Status (Some sh), ())
      | GetShardStatusLocally _ \<Rightarrow> (Status (Some sh), ())
      | VmadmLookupSapi \<Rightarrow> (Stdout ''sapi0'', ())
      | _ \<Rightarrow> (Done, ()))"





section \<open>Properties of the coordinator\<close>

lemma commit_procs:
  assumes "\<And>h. \<not> isDownloadImages (P h)"
  shows "filter isDownloadImages (snd (commit P st acc)) = filter isDownloadImages (snd st)"
  using assms by (cases st; cases acc) (simp add: commit_def)

lemma filters_keep_downloads:
  "filter isDownloadImages (snd (updateSimpleServices m h st)) = filter isDownloadImages (snd st)"
  "filter isDownloadImages (snd (updateSingleHeadnodeImgapi m h st)) = filter isDownloadImages (snd st)"
  "filter isDownloadImages (snd (updateSingleHeadnodeUFDS m h st)) = filter isDownloadImages (snd st)"
  "filter isDownloadImages (snd (updateMorays m st)) = filter isDownloadImages (snd st)"
  "filter isDownloadImages (snd (updateSingleHeadnodeSapi m h st)) = filter isDownloadImages (snd st)"
  "filter isDownloadImages (snd (updateManatees m st)) = filter isDownloadImages (snd st)"
  "filter isDownloadImages (snd (updateBinder m h st)) = filter isDownloadImages (snd st)"
  "filter isDownloadImages (snd (updateMahi m h st)) = filter isDownloadImages (snd st)"
  by (simp_all add: updateSimpleServices_def updateSingleHeadnodeImgapi_def
      updateSingleHeadnodeUFDS_def updateMorays_def updateSingleHeadnodeSapi_def
      updateManatees_def updateBinder_def updateMahi_def commit_procs)

lemma coordImages_downloads:
  assumes "coordImages getImage (cs, []) = Inr st"
  shows "filter isDownloadImages (snd st) =
           (if imagesToRetrieve getImage cs = [] then []
            else [DownloadImages (imagesToRetrieve getImage cs)])"
  using assms
  by (auto simp: coordImages_def split: list.splits if_splits)

lemma runFilters_downloads:
  assumes "runFilters getImage h p = Inr st"
  shows "filter isDownloadImages (snd st) =
           (if imagesToRetrieve getImage (changes p) = [] then []
            else [DownloadImages (imagesToRetrieve getImage (changes p))])"
proof -
  from assms obtain st0 where c: "coordImages getImage (changes p, []) = Inr st0"
    and st: "st = updateMahi (instsFromSvcName (curr p)) h
              (updateBinder (instsFromSvcName (curr p)) h
              (updateManatees (instsFromSvcName (curr p))
              (updateSingleHeadnodeSapi (instsFromSvcName (curr p)) h
              (updateMorays (instsFromSvcName (curr p))
              (updateSingleHeadnodeUFDS (instsFromSvcName (curr p)) h
              (updateSingleHeadnodeImgapi (instsFromSvcName (curr p)) h
              (updateSimpleServices (instsFromSvcName (curr p)) h st0)))))))"
    by (auto simp: runFilters_def Let_def split: sum.splits)
  have "filter isDownloadImages (snd st) = filter isDownloadImages (snd st0)"
    unfolding st by (simp only: filters_keep_downloads)
  with coordImages_downloads[OF c] show ?thesis by simp
qed

text \<open>
  \<^verbatim>\<open>coordinatePlan\<close> returns a procedure list only when the list of changes is empty after
  the last filter.
\<close>

lemma coordinatePlan_ok_only_when_consumed:
  assumes "coordinatePlan getImage h p = Inr ps"
  shows "\<exists>procs. runFilters getImage h p = Inr ([], procs)"
  using assms
  by (auto simp: coordinatePlan_def done_cb_def split: sum.splits if_splits)

text \<open>
  C1. The claim: a change that a filter skips stays in the list of remaining changes and
  is named in the final \<^verbatim>\<open>UpdateError\<close>. The code: with the headnode's \<^verbatim>\<open>cnapi\<close> change
  handled by \<^verbatim>\<open>updateSimpleServices\<close>, the \<^verbatim>\<open>vmapi\<close> change, skipped there for having two
  instances, is in neither \<^verbatim>\<open>handle\<close> nor \<^verbatim>\<open>remaining\<close>; \<^verbatim>\<open>changes = remaining\<close> then loses
  it, and \<^verbatim>\<open>coordinatePlan\<close> returns a procedure list without it and without an error.
\<close>

theorem coordinatePlan_loses_skipped_change:
  "coordinatePlan (\<lambda>_. Local) ''headnode'' planTwoVmapi =
     Inr [UpdateStatelessServicesV1
            [(updateService ''cnapi'' (mkImage ''IB''))
               \<lparr>ch_inst := Some (mkInst ''cnapi'' ''c0'' ''IA'' ''headnode'')\<rparr>]]"
  by code_simp

text \<open>
  What \<^verbatim>\<open>coordinatePlan\<close> returns when \<^verbatim>\<open>plan.justImages\<close> is set, read from the result:
  a procedure list comes only from a pipeline that has left no change over, and it is the
  list of the pipeline without everything other than \<^verbatim>\<open>DownloadImages\<close>.
\<close>

lemma coordinatePlan_justImages_only:
  assumes "justImages p" and "coordinatePlan getImage h p = Inr ps"
  shows "\<exists>procs. runFilters getImage h p = Inr ([], procs) \<and> ps = filter isDownloadImages procs"
proof -
  from assms(2) obtain cs procs where r: "runFilters getImage h p = Inr (cs, procs)"
    by (auto simp: coordinatePlan_def done_cb_def split: sum.splits)
  with assms have cs: "cs = []" and ps: "ps = filter isDownloadImages procs"
    by (auto simp: coordinatePlan_def done_cb_def split: if_splits)
  from ps cs r show ?thesis by simp
qed

text \<open>
  C9. When \<^verbatim>\<open>plan.justImages\<close> is set and the pipeline of filters has ended with no change
  left over, having produced the procedures \<open>procs\<close>, \<^verbatim>\<open>coordinatePlan\<close> returns \<open>procs\<close>
  with every procedure other than \<^verbatim>\<open>DownloadImages\<close> removed. What is left holds
  \<^verbatim>\<open>DownloadImages\<close> procedures only: none when no image is missing from the local image
  store, and otherwise the one procedure over the missing images.
\<close>

theorem coordinatePlan_justImages:
  assumes "justImages p" and "runFilters getImage h p = Inr ([], procs)"
  shows "coordinatePlan getImage h p = Inr (filter isDownloadImages procs)
         \<and> list_all isDownloadImages (filter isDownloadImages procs)
         \<and> filter isDownloadImages procs =
             (if imagesToRetrieve getImage (changes p) = [] then []
              else [DownloadImages (imagesToRetrieve getImage (changes p))])"
proof -
  from assms have "coordinatePlan getImage h p = Inr (filter isDownloadImages procs)"
    by (simp add: coordinatePlan_def done_cb_def)
  moreover have "list_all isDownloadImages (filter isDownloadImages procs)"
    by (simp add: list_all_iff)
  moreover from runFilters_downloads[OF assms(2)]
  have "filter isDownloadImages procs =
             (if imagesToRetrieve getImage (changes p) = [] then []
              else [DownloadImages (imagesToRetrieve getImage (changes p))])" by simp
  ultimately show ?thesis by blast
qed

theorem coordinatePlan_justImages_witness:
  "justImages planJustImages \<and>
   runFilters (\<lambda>_. ResourceNotFound) ''headnode'' planJustImages
     = Inr ([], [DownloadImages [mkImage ''IB''],
                 UpdateStatelessServicesV1
                   [(updateService ''cnapi'' (mkImage ''IB''))
                      \<lparr>ch_inst := Some (mkInst ''cnapi'' ''c0'' ''IA'' ''headnode'')\<rparr>]]) \<and>
   coordinatePlan (\<lambda>_. ResourceNotFound) ''headnode'' planJustImages
     = Inr [DownloadImages [mkImage ''IB'']]"
proof -
  have j: "justImages planJustImages" by code_simp
  have r: "runFilters (\<lambda>_. ResourceNotFound) ''headnode'' planJustImages
     = Inr ([], [DownloadImages [mkImage ''IB''],
                 UpdateStatelessServicesV1
                   [(updateService ''cnapi'' (mkImage ''IB''))
                      \<lparr>ch_inst := Some (mkInst ''cnapi'' ''c0'' ''IA'' ''headnode'')\<rparr>]])"
    by code_simp
  from coordinatePlan_justImages[OF j r] j r show ?thesis by simp
qed

section \<open>Properties of the planner\<close>

subsection \<open>\<^verbatim>\<open>createPlan\<close>\<close>

lemma stepRel_same: "inst_service i \<noteq> svcOf ch \<Longrightarrow> stepRel ch i i"
  by (simp add: stepRel_def sameButImage_def)

lemma stepRel_upd:
  "inst_service i = svcOf ch \<Longrightarrow> ch_image ch = Some img \<Longrightarrow>
   stepRel ch i (i\<lparr>inst_image := img_uuid img, inst_version := img_version img\<rparr>)"
  by (simp add: stepRel_def sameButImage_def)

lemma updateInsts_rel:
  "updateInsts ch xs = Inr ys \<Longrightarrow> list_all2 (stepRel ch) xs ys"
proof (induction xs arbitrary: ys)
  case Nil
  then show ?case by simp
next
  case (Cons i rest)
  show ?case
  proof (cases "inst_service i = svcOf ch")
    case True
    with Cons.prems obtain img rest' where "ch_image ch = Some img"
      "updateInsts ch rest = Inr rest'"
      "ys = i\<lparr>inst_image := img_uuid img, inst_version := img_version img\<rparr> # rest'"
      by (auto simp: svcOf_def split: option.splits sum.splits)
    with True Cons.IH show ?thesis by (simp add: stepRel_upd)
  next
    case False
    with Cons.prems obtain rest' where "updateInsts ch rest = Inr rest'" "ys = i # rest'"
      by (auto simp: svcOf_def split: sum.splits)
    with False Cons.IH show ?thesis by (simp add: stepRel_same)
  qed
qed

lemma sameButImage_refl: "sameButImage a a"
  by (simp add: sameButImage_def)

lemma sameButImage_trans: "sameButImage a b \<Longrightarrow> sameButImage b c \<Longrightarrow> sameButImage a c"
  unfolding sameButImage_def
  by (metis inst.surjective inst.update_convs(4) inst.update_convs(5) inst.select_convs)

lemma sameButImage_instance: "sameButImage a b \<Longrightarrow> inst_instance b = inst_instance a"
  unfolding sameButImage_def
  by (metis inst.select_convs(3) inst.surjective inst.update_convs(4) inst.update_convs(5))

lemma applyChanges_rel:
  "applyChanges xs chs = Inr ys \<Longrightarrow> list_all2 (planRel chs) xs ys"
proof (induction chs arbitrary: xs)
  case Nil
  then show ?case
    by (simp add: planRel_def sameButImage_refl list_all2_same)
next
  case (Cons ch rest)
  from Cons.prems obtain mid where m: "updateInsts ch xs = Inr mid"
    and r: "applyChanges mid rest = Inr ys"
    by (auto split: if_splits sum.splits)
  have 1: "list_all2 (stepRel ch) xs mid" by (rule updateInsts_rel[OF m])
  have 2: "list_all2 (planRel rest) mid ys" by (rule Cons.IH[OF r])
  have comp: "planRel (ch # rest) a c" if "stepRel ch a b" "planRel rest b c" for a b c
    using that sameButImage_trans[of a b c]
    by (auto simp: stepRel_def planRel_def sameButImage_instance split: if_splits)
  show ?case
    by (rule list_all2_trans[OF _ 1 2]) (rule comp)
qed

text \<open>
  C5. In a plan made by \<^verbatim>\<open>createPlan\<close>, \<open>curr\<close> is the inventory, \<open>targ\<close> lists the same
  instance ids in the same order, each \<open>targ\<close> entry is its \<open>curr\<close> entry in every field
  other than \<^verbatim>\<open>image\<close> and \<^verbatim>\<open>version\<close>, and (\<open>planRel\<close>) the instances of a changed
  service carry the uuid and version of the image of the change, no two changes being on
  one service, while the instances of the other services are unchanged.
\<close>

theorem createPlan_targ:
  assumes "createPlan insts chs ji = Inr p"
  shows "curr p = insts \<and> changes p = chs \<and> v p = 1
         \<and> map inst_instance (targ p) = map inst_instance (curr p)
         \<and> list_all2 sameButImage (curr p) (targ p)
         \<and> list_all2 (planRel chs) (curr p) (targ p)"
proof -
  from assms obtain t where t: "applyChanges insts chs = Inr t"
    and p: "p = UpdatePlan insts t chs ji"
    by (auto simp: createPlan_def split: sum.splits)
  have r: "list_all2 (planRel chs) insts t" by (rule applyChanges_rel[OF t])
  then have s: "list_all2 sameButImage insts t"
    by (rule list_all2_mono) (simp add: planRel_def)
  from r have "map inst_instance t = map inst_instance insts"
    by (induction rule: list_all2_induct) (auto simp: planRel_def)
  with r s p show ?thesis by (simp add: UpdatePlan_def UPDATE_PLAN_FORMAT_VER_def)
qed

theorem createPlan_targ_witness:
  "createPlan twoInsts [updateService ''cnapi'' (mkImage ''IB'')] False =
     Inr \<lparr> v = 1, curr = twoInsts,
           targ = [(mkInst ''cnapi'' ''c0'' ''IB'' ''headnode'')\<lparr>inst_version := ''2.0.0''\<rparr>,
                   mkInst ''vmapi'' ''v0'' ''IA'' ''headnode''],
           changes = [updateService ''cnapi'' (mkImage ''IB'')], justImages = False \<rparr>
   \<and> list_all2 (planRel [updateService ''cnapi'' (mkImage ''IB'')]) twoInsts
        [(mkInst ''cnapi'' ''c0'' ''IB'' ''headnode'')\<lparr>inst_version := ''2.0.0''\<rparr>,
         mkInst ''vmapi'' ''v0'' ''IA'' ''headnode'']"
proof -
  have h: "createPlan twoInsts [updateService ''cnapi'' (mkImage ''IB'')] False =
     Inr \<lparr> v = 1, curr = twoInsts,
           targ = [(mkInst ''cnapi'' ''c0'' ''IB'' ''headnode'')\<lparr>inst_version := ''2.0.0''\<rparr>,
                   mkInst ''vmapi'' ''v0'' ''IA'' ''headnode''],
           changes = [updateService ''cnapi'' (mkImage ''IB'')], justImages = False \<rparr>"
    by code_simp
  from createPlan_targ[OF h] h show ?thesis by simp
qed

subsection \<open>\<^verbatim>\<open>dropNoops\<close>\<close>

lemma remdups_single:
  "(length (remdups xs) = 1 \<and> remdups xs ! 0 = u) = (set xs = {u})"
proof
  assume a: "length (remdups xs) = 1 \<and> remdups xs ! 0 = u"
  then have "remdups xs = [u]" by (cases "remdups xs") auto
  then have "set (remdups xs) = {u}" by simp
  then show "set xs = {u}" by simp
next
  assume s: "set xs = {u}"
  then have "card (set xs) = 1" by simp
  then have l: "length (remdups xs) = 1" by (simp add: length_remdups_card_conv)
  then obtain y where y: "remdups xs = [y]" by (cases "remdups xs") auto
  then have "set (remdups xs) = {y}" by simp
  with s have "y = u" by simp
  with y l show "length (remdups xs) = 1 \<and> remdups xs ! 0 = u" by simp
qed

lemma remdups_single_ex:
  "(length (remdups xs) = 1) = (\<exists>u. set xs = {u})"
  using remdups_single[of xs] by (metis)

lemma keep_nonupdate:
  "\<not> isUpdate ch \<Longrightarrow> dropNoopsKeep force insts ch = Inr True"
  by (simp add: dropNoopsKeep_def isUpdate_def)

lemma keep_empty:
  "isUpdate ch \<Longrightarrow> ch_images ch = Some [] \<Longrightarrow> dropNoopsKeep force insts ch = Inr False"
  by (simp add: dropNoopsKeep_def isUpdate_def)

lemma keep_force:
  "isUpdate ch \<Longrightarrow> ch_images ch = Some imgs \<Longrightarrow> imgs \<noteq> [] \<Longrightarrow> force \<Longrightarrow>
   dropNoopsKeep force insts ch = Inr True"
  by (simp add: dropNoopsKeep_def isUpdate_def)

lemma keep_noinst:
  "isUpdate ch \<Longrightarrow> ch_images ch = Some imgs \<Longrightarrow> imgs \<noteq> [] \<Longrightarrow> \<not> force \<Longrightarrow>
   used insts ch = [] \<Longrightarrow> svc_params (ch_service ch) = Some (Some u) \<Longrightarrow> u \<noteq> [] \<Longrightarrow>
   dropNoopsKeep force insts ch = Inr (\<not> (\<forall>img \<in> set imgs. img_uuid img = u))"
  unfolding dropNoopsKeep_def used_def[symmetric]
  by (auto simp add: isUpdate_def filter_empty_conv)

lemma keep_single:
  "isUpdate ch \<Longrightarrow> ch_images ch = Some imgs \<Longrightarrow> imgs \<noteq> [] \<Longrightarrow> \<not> force \<Longrightarrow>
   set (used insts ch) = {u} \<Longrightarrow>
   dropNoopsKeep force insts ch = Inr (\<not> (\<forall>img \<in> set imgs. img_uuid img = u))"
proof -
  assume a: "isUpdate ch" "ch_images ch = Some imgs" "imgs \<noteq> []" "\<not> force"
    and s: "set (used insts ch) = {u}"
  from s remdups_single[of "used insts ch" u]
  have r: "length (remdups (used insts ch)) = 1" "remdups (used insts ch) ! 0 = u" by simp_all
  show ?thesis
    unfolding dropNoopsKeep_def used_def[symmetric] Let_def
    using a r by (auto simp add: isUpdate_def filter_empty_conv simp del: remdups.simps)
qed

lemma keep_many:
  "isUpdate ch \<Longrightarrow> ch_images ch = Some imgs \<Longrightarrow> imgs \<noteq> [] \<Longrightarrow> \<not> force \<Longrightarrow>
   used insts ch \<noteq> [] \<Longrightarrow> \<not> (\<exists>u. set (used insts ch) = {u}) \<Longrightarrow>
   dropNoopsKeep force insts ch = Inr True"
proof -
  assume a: "isUpdate ch" "ch_images ch = Some imgs" "imgs \<noteq> []" "\<not> force"
    and ne: "used insts ch \<noteq> []" and s: "\<not> (\<exists>u. set (used insts ch) = {u})"
  from s remdups_single_ex[of "used insts ch"]
  have r: "length (remdups (used insts ch)) \<noteq> 1" by simp
  from ne have r0: "length (remdups (used insts ch)) \<noteq> 0" by simp
  show ?thesis
    unfolding dropNoopsKeep_def used_def[symmetric] Let_def
    using a r r0 by (simp add: isUpdate_def del: remdups.simps)
qed

lemma used_set:
  "set (used insts ch) = inst_image ` {i \<in> set insts. inst_service i = svc_name (ch_service ch)}"
  by (auto simp: used_def)

lemma currentImages_used:
  "currentImages insts ch =
     (if used insts ch = [] then (case svc_params (ch_service ch) of
                              Some (Some u) \<Rightarrow> {u} | _ \<Rightarrow> {})
      else set (used insts ch))"
  unfolding currentImages_def Let_def used_set[symmetric] by simp

lemma dropNoopsKeep_noop:
  assumes "dropNoopsDefined force insts ch"
  shows "dropNoopsKeep force insts ch = Inr (\<not> noop force insts ch)"
proof (cases "isUpdate ch")
  case False
  then show ?thesis by (simp add: keep_nonupdate noop_def)
next
  case True
  with assms obtain imgs where imgs: "ch_images ch = Some imgs"
    by (auto simp: dropNoopsDefined_def)
  then have cand: "candidates ch = imgs" by (simp add: candidates_def)
  show ?thesis
  proof (cases "imgs = []")
    case True
    with \<open>isUpdate ch\<close> imgs cand show ?thesis by (simp add: keep_empty noop_def)
  next
    case ne: False
    show ?thesis
    proof (cases force)
      case True
      with \<open>isUpdate ch\<close> imgs cand ne show ?thesis by (simp add: keep_force noop_def)
    next
      case nf: False
      have n: "noop force insts ch =
                 (\<exists>u. currentImages insts ch = {u} \<and> (\<forall>img \<in> set imgs. img_uuid img = u))"
        using \<open>isUpdate ch\<close> cand ne nf by (simp add: noop_def)
      show ?thesis
      proof (cases "used insts ch = []")
        case True
        then have "\<not> list_ex (\<lambda>i. inst_service i = svc_name (ch_service ch)) insts"
          by (auto simp: used_def list_ex_iff filter_empty_conv)
        with assms \<open>isUpdate ch\<close> ne nf cand obtain u where
          u: "svc_params (ch_service ch) = Some (Some u)" "u \<noteq> []"
          by (auto simp: dropNoopsDefined_def)
        with True have "currentImages insts ch = {u}" by (simp add: currentImages_used)
        with n have "noop force insts ch = (\<forall>img \<in> set imgs. img_uuid img = u)" by auto
        with keep_noinst[OF \<open>isUpdate ch\<close> imgs ne nf True u] show ?thesis by simp
      next
        case False
        then have ci: "currentImages insts ch = set (used insts ch)"
          by (simp add: currentImages_used)
        show ?thesis
        proof (cases "\<exists>u. set (used insts ch) = {u}")
          case True
          then obtain u where u: "set (used insts ch) = {u}" by blast
          with n ci have "noop force insts ch = (\<forall>img \<in> set imgs. img_uuid img = u)" by auto
          with keep_single[OF \<open>isUpdate ch\<close> imgs ne nf u] show ?thesis by simp
        next
          case nu: False
          with n ci have "\<not> noop force insts ch" by auto
          with keep_many[OF \<open>isUpdate ch\<close> imgs ne nf False nu] show ?thesis by simp
        qed
      qed
    qed
  qed
qed

text \<open>
  C7, as stated, fails: with \<^verbatim>\<open>forceSameImage\<close> unset, an \<^verbatim>\<open>update-instance\<close> change whose
  only candidate is the image that the one instance of its service runs is removed, where
  the claim removes only \<^verbatim>\<open>update-service\<close> changes for that reason and retains the rest.
\<close>

theorem dropNoops_update_instance_counterexample:
  "dropNoops False twoInsts [updateInstanceSame] = Inr [] \<and>
   filter (\<lambda>ch. \<not> noopAsSpecified False twoInsts ch) [updateInstanceSame] = [updateInstanceSame]"
proof -
  have a: "dropNoops False twoInsts [updateInstanceSame] = Inr []" by code_simp
  have "\<not> noopAsSpecified False twoInsts updateInstanceSame"
    by (simp add: noopAsSpecified_def updateInstanceSame_def mkChange_def isUpdate_def
        candidates_def)
  with a show ?thesis by simp
qed

text \<open>
  C7, amended. On every change list on which the filter callback does not throw,
  \<^verbatim>\<open>dropNoops\<close> removes exactly the changes that are no-ops in the sense of \<open>noop\<close>: the
  \<^verbatim>\<open>update-service\<close> and \<^verbatim>\<open>update-instance\<close> changes without candidate image and, unless
  \<^verbatim>\<open>forceSameImage\<close>, those of both types whose candidates all are the one image that the
  instances of the service run (or, the service having no instance, the image of
  \<^verbatim>\<open>service.params.image_uuid\<close>). All other changes are retained, in order.
\<close>

theorem dropNoops_filter:
  assumes "list_all (dropNoopsDefined force insts) chs"
  shows "dropNoops force insts chs = Inr (filter (\<lambda>ch. \<not> noop force insts ch) chs)"
  using assms
  by (induction chs) (simp_all add: dropNoopsKeep_noop)

theorem dropNoops_filter_witness:
  "list_all (dropNoopsDefined False twoInsts)
     [updateServiceNewer, updateServiceSame, updateInstanceSame] \<and>
   dropNoops False twoInsts [updateServiceNewer, updateServiceSame, updateInstanceSame]
     = Inr [updateServiceNewer] \<and>
   filter (\<lambda>ch. \<not> noop False twoInsts ch)
     [updateServiceNewer, updateServiceSame, updateInstanceSame] = [updateServiceNewer]"
proof -
  have h: "list_all (dropNoopsDefined False twoInsts)
     [updateServiceNewer, updateServiceSame, updateInstanceSame]"
    by (simp add: dropNoopsDefined_def updateServiceNewer_def updateServiceSame_def
        updateInstanceSame_def mkChange_def mkService_def twoInsts_def mkInst_def)
  have d: "dropNoops False twoInsts [updateServiceNewer, updateServiceSame, updateInstanceSame]
     = Inr [updateServiceNewer]" by code_simp
  from dropNoops_filter[OF h] h d show ?thesis by simp
qed

subsection \<open>\<^verbatim>\<open>checkForConflictingChanges\<close>\<close>

lemma instKey_comp: "(map_option inst_instance \<circ> ch_instance) = instKey"
  by (auto simp: instKey_def fun_eq_iff)

lemma levels_exclusive: "serviceLevel ch \<Longrightarrow> \<not> instanceLevel ch"
  by (simp add: serviceLevel_def instanceLevel_def)

lemma good_Nil: "loopGood fs fi []"
  by (simp add: loopGood_def)

lemma good_service:
  assumes "serviceLevel ch"
  shows "loopGood fs fi (ch # rest) =
           (svcOf ch \<notin> dom fs \<and> loopGood (fs(svcOf ch \<mapsto> ch)) fi rest)"
  using assms levels_exclusive[OF assms]
  by (auto simp: loopGood_def)

lemma good_instance:
  assumes "instanceLevel ch" "ch_instance ch = Some i"
  shows "loopGood fs fi (ch # rest) =
           (inst_instance i \<notin> dom fi \<and> loopGood fs (fi(inst_instance i \<mapsto> ch)) rest)"
proof -
  from assms(1) have ns: "\<not> serviceLevel ch" using levels_exclusive by blast
  from assms(2) have k: "instKey ch = Some (inst_instance i)" by (simp add: instKey_def)
  show ?thesis
    using assms(1) ns k by (auto simp: loopGood_def)
qed

lemma loop1_char:
  assumes "normalized rest"
  shows "(loopGood fs fi rest \<longrightarrow>
            (\<exists>fs'. conflictLoop1 fs fi rest = Inr fs' \<and>
                   dom fs' = dom fs \<union> set (map svcOf (filter serviceLevel rest))))
       \<and> (\<not> loopGood fs fi rest \<longrightarrow>
            (\<exists>e. conflictLoop1 fs fi rest = Inl e \<and> isConflictError e))"
  using assms
proof (induction rest arbitrary: fs fi)
  case Nil
  then show ?case by (simp add: good_Nil)
next
  case (Cons ch rest)
  then have nr: "normalized rest" and lv: "serviceLevel ch \<or> instanceLevel ch"
    by (simp_all add: normalized_def)
  show ?case
  proof (cases "serviceLevel ch")
    case True
    then have tt: "typeTarg ch = Some ''service''" by (simp add: serviceLevel_def)
    show ?thesis
    proof (cases "fs (svcOf ch)")
      case None
      then have nd: "svcOf ch \<notin> dom fs" by auto
      have eq: "conflictLoop1 fs fi (ch # rest) = conflictLoop1 (fs(svcOf ch \<mapsto> ch)) fi rest"
        using tt None by (simp add: svcOf_def)
      have g: "loopGood fs fi (ch # rest) = loopGood (fs(svcOf ch \<mapsto> ch)) fi rest"
        using good_service[OF True, of fs fi rest] nd by simp
      have dm: "dom (fs(svcOf ch \<mapsto> ch)) \<union> set (map svcOf (filter serviceLevel rest))
                = dom fs \<union> set (map svcOf (filter serviceLevel (ch # rest)))"
        using True by auto
      show ?thesis
        unfolding eq g dm[symmetric] by (rule Cons.IH[OF nr])
    next
      case (Some other)
      then have "svcOf ch \<in> dom fs" by auto
      moreover have "\<exists>e. conflictLoop1 fs fi (ch # rest) = Inl e \<and> isConflictError e"
        using tt Some by (simp add: svcOf_def)
      ultimately show ?thesis using True by (simp add: good_service)
    qed
  next
    case False
    with lv have il: "instanceLevel ch" by simp
    then obtain i where i: "ch_instance ch = Some i" and tt: "typeTarg ch = Some ''instance''"
      by (auto simp: instanceLevel_def)
    show ?thesis
    proof (cases "fi (inst_instance i)")
      case None
      then have nd: "inst_instance i \<notin> dom fi" by auto
      have eq: "conflictLoop1 fs fi (ch # rest) = conflictLoop1 fs (fi(inst_instance i \<mapsto> ch)) rest"
        using tt i None by simp
      have g: "loopGood fs fi (ch # rest) = loopGood fs (fi(inst_instance i \<mapsto> ch)) rest"
        using good_instance[OF il i, of fs fi rest] nd by simp
      have dm: "set (map svcOf (filter serviceLevel (ch # rest)))
                = set (map svcOf (filter serviceLevel rest))"
        using False by simp
      show ?thesis
        unfolding eq g dm by (rule Cons.IH[OF nr])
    next
      case (Some other)
      then have "inst_instance i \<in> dom fi" by auto
      moreover have "\<exists>e. conflictLoop1 fs fi (ch # rest) = Inl e \<and> isConflictError e"
        using tt i Some by simp
      ultimately show ?thesis using il i by (simp add: good_instance)
    qed
  qed
qed

lemma loop2_char:
  assumes "normalized cs"
  shows "(if \<exists>ch \<in> set cs. instanceLevel ch \<and> svcOf ch \<in> dom fs
          then \<exists>e. conflictLoop2 fs cs = Inl e \<and> isConflictError e
          else conflictLoop2 fs cs = Inr ())"
  using assms
proof (induction cs)
  case Nil
  then show ?case by simp
next
  case (Cons ch rest)
  then have nr: "normalized rest" and lv: "serviceLevel ch \<or> instanceLevel ch"
    by (simp_all add: normalized_def)
  from lv have tt: "(typeTarg ch = Some ''instance'') = instanceLevel ch"
    by (auto simp: serviceLevel_def instanceLevel_def)
  show ?case
    using Cons.IH[OF nr] tt
    by (cases "fs (svc_name (ch_service ch))") (auto simp: svcOf_def split: if_splits)
qed

text \<open>
  What the two loops do on a list in which every instance-level change carries its
  instance object (\<open>normalized\<close>): the check ends with an \<^verbatim>\<open>UpdateError\<close> that names a
  conflict when two service-level changes are on the same service, or two instance-level
  changes on the same instance, or a service-level and an instance-level change on the
  same service, and it passes when there is no such pair. (No list that
  \<^verbatim>\<open>normalizeChanges\<close> hands over has an instance-level change of this kind; see below.)
\<close>

theorem checkForConflictingChanges_iff:
  assumes "normalized cs"
  shows "(hasConflict cs \<longrightarrow> (\<exists>e. checkForConflictingChanges cs = Inl e \<and> isConflictError e))
       \<and> (\<not> hasConflict cs \<longrightarrow> checkForConflictingChanges cs = Inr ())"
proof (cases "loopGood Map.empty Map.empty cs")
  case False
  then have "twoOnSameService cs \<or> twoOnSameInstance cs"
    by (auto simp: loopGood_def twoOnSameService_def twoOnSameInstance_def instKey_comp)
  then have h: "hasConflict cs" unfolding hasConflict_def by blast
  from loop1_char[OF assms, of Map.empty Map.empty] False
  obtain e where "conflictLoop1 Map.empty Map.empty cs = Inl e" "isConflictError e" by blast
  then have "\<exists>e. checkForConflictingChanges cs = Inl e \<and> isConflictError e"
    by (simp add: checkForConflictingChanges_def)
  with h show ?thesis by simp
next
  case True
  then have no2: "\<not> twoOnSameService cs" "\<not> twoOnSameInstance cs"
    by (auto simp: loopGood_def twoOnSameService_def twoOnSameInstance_def instKey_comp)
  from loop1_char[OF assms, of Map.empty Map.empty] True
  obtain fs' where f: "conflictLoop1 Map.empty Map.empty cs = Inr fs'"
    and d: "dom fs' = set (map svcOf (filter serviceLevel cs))" by auto
  have c: "checkForConflictingChanges cs = conflictLoop2 fs' cs"
    using f by (simp add: checkForConflictingChanges_def)
  have s: "serviceAndInstanceOfIt cs = (\<exists>ch \<in> set cs. instanceLevel ch \<and> svcOf ch \<in> dom fs')"
    unfolding d serviceAndInstanceOfIt_def list_ex_iff by auto
  from loop2_char[OF assms, of fs'] s c no2 show ?thesis
    by (auto simp: hasConflict_def split: if_splits)
qed

theorem checkForConflictingChanges_iff_witness:
  "normalized conflictExample \<and> hasConflict conflictExample \<and>
   checkForConflictingChanges conflictExample =
     Inl (UpdateError (ServiceAndInstance
            (''update-instance'', ''imgapi'', Some ''imgapi-inst-0'')
            (''update-service'', ''imgapi'', None))) \<and>
   normalized [updateService ''imgapi'' (mkImage ''IB'')] \<and>
   \<not> hasConflict [updateService ''imgapi'' (mkImage ''IB'')] \<and>
   checkForConflictingChanges [updateService ''imgapi'' (mkImage ''IB'')] = Inr ()"
proof -
  have n: "normalized conflictExample" by code_simp
  have h: "hasConflict conflictExample" by code_simp
  have c: "checkForConflictingChanges conflictExample =
     Inl (UpdateError (ServiceAndInstance
            (''update-instance'', ''imgapi'', Some ''imgapi-inst-0'')
            (''update-service'', ''imgapi'', None)))" by code_simp
  have n1: "normalized [updateService ''imgapi'' (mkImage ''IB'')]" by code_simp
  have h1: "\<not> hasConflict [updateService ''imgapi'' (mkImage ''IB'')]" by code_simp
  from checkForConflictingChanges_iff[OF n] checkForConflictingChanges_iff[OF n1] n h c n1 h1
  show ?thesis by simp
qed

subsection \<open>The changes that reach \<^verbatim>\<open>checkForConflictingChanges\<close>\<close>

text \<open>
  A change that passes \<^verbatim>\<open>validateChanges\<close> has no other keys than \<^verbatim>\<open>type\<close>, \<^verbatim>\<open>server\<close>,
  \<^verbatim>\<open>service\<close>, \<^verbatim>\<open>image\<close> and \<^verbatim>\<open>instance\<close>: the keys \<^verbatim>\<open>uuid\<close> and \<^verbatim>\<open>alias\<close> that
  \<^verbatim>\<open>resolveChange\<close> looks for are extra fields in every branch.
\<close>

lemma validateKeys_keys:
  "validateKeys allowed c = [] \<Longrightarrow> set (map fst c) \<subseteq> set allowed"
  by (auto simp: validateKeys_def Let_def filter_empty_conv split: if_splits)

lemma validateChange_allowed:
  assumes "fst (validateChange c) = []"
  shows "validateKeys [''type'', ''server'', ''service'', ''image''] (snd (validateChange c)) = []
       \<or> validateKeys [''type'', ''instance'', ''image''] (snd (validateChange c)) = []
       \<or> validateKeys [''type'', ''service''] (snd (validateChange c)) = []
       \<or> validateKeys [''type'', ''service'', ''image''] (snd (validateChange c)) = []"
proof -
  let ?ty = "map_of c ''type''"
  let ?sv = "truthy (map_of c ''service'')"
  let ?sr = "truthy (map_of c ''server'')"
  let ?in = "truthy (map_of c ''instance'')"
  consider (create) "?ty = Some (JsString ''create'')"
    | (deleteAgent) "?ty \<noteq> Some (JsString ''create'')" "?ty = Some (JsString ''delete'')" "?sv \<and> ?sr"
    | (delete) "?ty \<noteq> Some (JsString ''create'')" "?ty = Some (JsString ''delete'')" "\<not> (?sv \<and> ?sr)"
    | (deleteService) "?ty \<noteq> Some (JsString ''create'')" "?ty \<noteq> Some (JsString ''delete'')"
        "?ty = Some (JsString ''delete-service'')"
    | (agent) "?ty \<noteq> Some (JsString ''create'')" "?ty \<noteq> Some (JsString ''delete'')"
        "?ty \<noteq> Some (JsString ''delete-service'')" "?sv \<and> ?sr"
    | (inst) "?ty \<noteq> Some (JsString ''create'')" "?ty \<noteq> Some (JsString ''delete'')"
        "?ty \<noteq> Some (JsString ''delete-service'')" "\<not> (?sv \<and> ?sr)" "?in"
    | (svc) "?ty \<noteq> Some (JsString ''create'')" "?ty \<noteq> Some (JsString ''delete'')"
        "?ty \<noteq> Some (JsString ''delete-service'')" "\<not> (?sv \<and> ?sr)" "\<not> ?in" "?sv"
    | (none) "?ty \<noteq> Some (JsString ''create'')" "?ty \<noteq> Some (JsString ''delete'')"
        "?ty \<noteq> Some (JsString ''delete-service'')" "\<not> (?sv \<and> ?sr)" "\<not> ?in" "\<not> ?sv"
    by blast
  then show ?thesis
  proof cases
    case create
    with assms show ?thesis by (simp add: validateChange_def Let_def)
  next
    case deleteAgent
    with assms show ?thesis by (simp add: validateChange_def Let_def)
  next
    case delete
    with assms show ?thesis by (simp add: validateChange_def Let_def)
  next
    case deleteService
    with assms show ?thesis by (simp add: validateChange_def Let_def)
  next
    case agent
    with assms show ?thesis by (simp add: validateChange_def Let_def split: prod.splits)
  next
    case inst
    with assms show ?thesis by (simp add: validateChange_def Let_def split: prod.splits)
  next
    case svc
    with assms show ?thesis by (simp add: validateChange_def Let_def split: prod.splits)
  next
    case none
    with assms show ?thesis by (simp add: validateChange_def Let_def)
  qed
qed

lemma validateChange_keys:
  assumes "fst (validateChange c) = []"
  shows "set (map fst (snd (validateChange c))) \<subseteq>
           {''type'', ''server'', ''service'', ''image'', ''instance''}"
proof -
  from validateChange_allowed[OF assms]
  consider "set (map fst (snd (validateChange c))) \<subseteq> set [''type'', ''server'', ''service'', ''image'']"
    | "set (map fst (snd (validateChange c))) \<subseteq> set [''type'', ''instance'', ''image'']"
    | "set (map fst (snd (validateChange c))) \<subseteq> set [''type'', ''service'']"
    | "set (map fst (snd (validateChange c))) \<subseteq> set [''type'', ''service'', ''image'']"
    using validateKeys_keys by blast
  then show ?thesis
    by cases (rule subset_trans, assumption, simp)+
qed

lemma map_of_absent: "k \<notin> set (map fst c) \<Longrightarrow> map_of c k = None"
  by (simp add: map_of_eq_None_iff)

lemma validateChange_no_alias:
  assumes "fst (validateChange c) = []"
  shows "map_of (snd (validateChange c)) ''alias'' = None"
proof (rule map_of_absent)
  from validateChange_keys[OF assms]
  show "''alias'' \<notin> set (map fst (snd (validateChange c)))" by auto
qed

lemma validateChanges_ok:
  assumes "validateChanges rcs = Inr vs"
  shows "vs = map (snd \<circ> validateChange) rcs \<and> (\<forall>c \<in> set rcs. fst (validateChange c) = [])"
proof -
  let ?errs = "concat (map (fst \<circ> validateChange) rcs)"
  from assms have l: "length ?errs \<noteq> Suc 0" "\<not> Suc 0 < length ?errs"
    and vs: "vs = map (snd \<circ> validateChange) rcs"
    by (auto simp: validateChanges_def Let_def split: if_splits)
  from l have "length ?errs = 0" by arith
  then have "?errs = []" by (simp only: length_0_conv)
  then have "\<forall>c \<in> set rcs. fst (validateChange c) = []" by simp
  with vs show ?thesis by simp
qed

lemma validateChanges_no_alias:
  assumes "validateChanges rcs = Inr vs"
  shows "\<forall>rc \<in> set vs. map_of rc ''alias'' = None"
  using validateChanges_ok[OF assms] by (auto simp: validateChange_no_alias)

text \<open>Without the key \<^verbatim>\<open>alias\<close>, \<^verbatim>\<open>resolveChange\<close> leaves \<^verbatim>\<open>ch.instance\<close> as it was.\<close>

lemma resolveChange_instance:
  assumes "resolveChange svcs insts servers getImage getCandidateImages rc = Resolved c"
    and "map_of rc ''alias'' = None"
  shows "ch_instance c = None"
  using assms
  by (auto simp: resolveChange_def truthy_def Let_def
           split: if_splits option.splits jsval.splits)

lemma resolvedChanges_set:
  "c \<in> set (resolvedChanges rs) \<Longrightarrow> Resolved c \<in> set rs"
  by (induction rs rule: resolvedChanges.induct) auto

lemma normalizeChanges_instance:
  assumes "normalizeChanges svcs insts servers getImage getCandidateImages vs = Inr cs"
    and "\<forall>rc \<in> set vs. map_of rc ''alias'' = None"
  shows "list_all (\<lambda>c. ch_instance c = None) cs"
proof -
  from assms(1) have cs: "cs = resolvedChanges
      (map (resolveChange svcs insts servers getImage getCandidateImages) vs)"
    by (auto simp: normalizeChanges_def Let_def split: option.splits if_splits)
  show ?thesis
    unfolding list_all_iff
  proof
    fix c assume "c \<in> set cs"
    then have "Resolved c \<in> set (map (resolveChange svcs insts servers getImage getCandidateImages) vs)"
      unfolding cs by (rule resolvedChanges_set)
    then obtain rc where "rc \<in> set vs"
      "resolveChange svcs insts servers getImage getCandidateImages rc = Resolved c" by auto
    with assms(2) show "ch_instance c = None" by (auto dest: resolveChange_instance)
  qed
qed

text \<open>
  On such a list the first loop ends at the first change that is not service-level: with
  the TypeError of \<^verbatim>\<open>ch.instance.instance\<close> when its type ends in \<^verbatim>\<open>-instance\<close>, and with
  the error of \<^verbatim>\<open>assert.equal\<close> otherwise.
\<close>

lemma loop1_without_instances:
  assumes "list_all (\<lambda>c. ch_instance c = None) cs"
  shows "case conflictLoop1 fs fi cs of
           Inl e \<Rightarrow> isSameServiceError e \<or> e = TypeError \<or> e = AssertionError
         | Inr m \<Rightarrow> list_all serviceLevel cs"
  using assms
proof (induction cs arbitrary: fs)
  case Nil
  show ?case by simp
next
  case (Cons ch rest)
  then have i: "ch_instance ch = None" and r: "list_all (\<lambda>c. ch_instance c = None) rest"
    by simp_all
  show ?case
  proof (cases "typeTarg ch = Some ''service''")
    case False
    with i show ?thesis by simp
  next
    case True
    show ?thesis
    proof (cases "fs (svc_name (ch_service ch))")
      case (Some other)
      with True show ?thesis by simp
    next
      case None
      have eq: "conflictLoop1 fs fi (ch # rest) =
                conflictLoop1 (fs(svc_name (ch_service ch) \<mapsto> ch)) fi rest"
        using True None by (simp add: Let_def)
      note ih = Cons.IH[OF r, of "fs(svc_name (ch_service ch) \<mapsto> ch)"]
      show ?thesis
        unfolding eq using ih True
        by (cases "conflictLoop1 (fs(svc_name (ch_service ch) \<mapsto> ch)) fi rest")
           (simp_all add: serviceLevel_def del: fun_upd_apply)
    qed
  qed
qed

lemma loop2_service_level:
  "list_all serviceLevel cs \<Longrightarrow> conflictLoop2 fs cs = Inr ()"
  by (induction cs) (simp_all add: serviceLevel_def)

lemma check_without_instances:
  assumes "list_all (\<lambda>c. ch_instance c = None) cs"
  shows "case checkForConflictingChanges cs of
           Inl e \<Rightarrow> isSameServiceError e \<or> e = TypeError \<or> e = AssertionError
         | Inr u \<Rightarrow> list_all serviceLevel cs"
  using loop1_without_instances[OF assms, of Map.empty Map.empty]
  by (cases "conflictLoop1 Map.empty Map.empty cs")
     (simp_all add: checkForConflictingChanges_def loop2_service_level)

text \<open>
  So, whatever the caller asks for: the pipeline gets past the check for conflicts only
  with a list of service-level changes, and of the three kinds of conflict it reports
  only that of two changes to one service.
\<close>

lemma conflictStage_service_level_only:
  assumes "conflictStage svcs insts servers getImage getCandidateImages rcs = Inr cs"
  shows "list_all serviceLevel cs"
proof -
  from assms obtain vs where vd: "validateChanges rcs = Inr vs"
    and n: "normalizeChanges svcs insts servers getImage getCandidateImages vs = Inr cs"
    and c: "checkForConflictingChanges cs = Inr ()"
    by (auto simp: conflictStage_def split: sum.splits)
  from check_without_instances[OF normalizeChanges_instance[OF n validateChanges_no_alias[OF vd]]] c
  show ?thesis by simp
qed

lemma validateString_errors: "list_all isValidationError (validateString d k)"
  by (simp add: validateString_def split: option.splits jsval.splits)

lemma validateKeys_errors: "list_all isValidationError (validateKeys al d)"
  by (simp add: validateKeys_def Let_def)

lemma checkType_errors: "checkType ty d = (e, d') \<Longrightarrow> list_all isValidationError e"
  by (auto simp: checkType_def split: if_splits)

lemma validateChange_errors: "list_all isValidationError (fst (validateChange c))"
  unfolding validateChange_def Let_def
  by (simp add: validateString_errors validateKeys_errors checkType_errors
           split: prod.splits)

lemma validateChanges_error:
  assumes "validateChanges rcs = Inl e"
  shows "\<not> isConflictError e"
proof -
  let ?errs = "concat (map fst (map validateChange rcs))"
  have all: "\<forall>x \<in> set ?errs. isValidationError x"
    using validateChange_errors by (auto simp: list_all_iff)
  from assms have "(length ?errs = 1 \<and> e = ?errs ! 0) \<or> e = MultiError ?errs"
    by (auto simp: validateChanges_def Let_def split: if_splits)
  then show ?thesis
  proof
    assume l: "length ?errs = 1 \<and> e = ?errs ! 0"
    then have "e \<in> set ?errs" by (metis One_nat_def lessI nth_mem)
    with all have "isValidationError e" by blast
    then show ?thesis by (cases e) simp_all
  next
    assume "e = MultiError ?errs" then show ?thesis by simp
  qed
qed

lemma thrown_set: "thrown rs = Some x \<Longrightarrow> Throws x \<in> set rs"
  by (induction rs rule: thrown.induct) auto

lemma resolveChange_throws:
  "resolveChange svcs insts servers getImage getCandidateImages rc = Throws x \<Longrightarrow>
   x = Error ''TODO'' \<or> x = AssertionError"
  by (simp add: resolveChange_def Let_def split: if_splits option.splits jsval.splits)

lemma normalizeChanges_error:
  assumes "normalizeChanges svcs insts servers getImage getCandidateImages vs = Inl e"
  shows "\<not> isConflictError e"
proof -
  let ?rs = "map (resolveChange svcs insts servers getImage getCandidateImages) vs"
  from assms have "thrown ?rs = Some e \<or> e = MultiError (failed ?rs)"
    by (auto simp: normalizeChanges_def Let_def split: option.splits if_splits)
  then show ?thesis
  proof
    assume "thrown ?rs = Some e"
    from thrown_set[OF this] obtain rc where
      "resolveChange svcs insts servers getImage getCandidateImages rc = Throws e" by auto
    from resolveChange_throws[OF this] show ?thesis by auto
  next
    assume "e = MultiError (failed ?rs)" then show ?thesis by simp
  qed
qed

lemma conflictStage_reports_services_only:
  assumes "conflictStage svcs insts servers getImage getCandidateImages rcs = Inl e"
    and "isConflictError e"
  shows "isSameServiceError e"
proof (cases "validateChanges rcs")
  case (Inl x)
  with assms(1) have "e = x" by (simp add: conflictStage_def)
  with validateChanges_error[OF Inl] assms(2) show ?thesis by simp
next
  case (Inr vs)
  show ?thesis
  proof (cases "normalizeChanges svcs insts servers getImage getCandidateImages vs")
    case (Inl x)
    with assms(1) Inr have "e = x" by (simp add: conflictStage_def)
    with normalizeChanges_error[OF Inl] assms(2) show ?thesis by simp
  next
    case n: (Inr cs)
    with assms(1) Inr have "checkForConflictingChanges cs = Inl e"
      by (auto simp: conflictStage_def split: sum.splits)
    with check_without_instances[OF normalizeChanges_instance[OF n validateChanges_no_alias[OF Inr]]]
      assms(2)
    show ?thesis by auto
  qed
qed

text \<open>
  C6. The claim: the planner fails with the \<^verbatim>\<open>UpdateError\<close> of a conflict when a
  service-level and an instance-level change are on the same service, and the check passes
  when no two changes conflict. The code: asked for the service \<^verbatim>\<open>provisioner\<close> and for
  its instance on the headnode, it ends in the first loop of
  \<^verbatim>\<open>checkForConflictingChanges\<close> with the TypeError of \<^verbatim>\<open>ch.instance.instance\<close>, for
  \<^verbatim>\<open>ch.instance\<close> is \<^verbatim>\<open>undefined\<close>; asked for that instance alone, where nothing
  conflicts, it ends in the same way; asked for the service \<^verbatim>\<open>imgapi\<close> and its instance
  \<^verbatim>\<open>imgapi-inst-0\<close>, it does not reach the check, for \<^verbatim>\<open>resolveChange\<close> throws
  \<^verbatim>\<open>Error('TODO')\<close> on a change without \<^verbatim>\<open>service\<close>; and the key \<^verbatim>\<open>alias\<close>, which alone
  would give a change its instance object, is refused by \<^verbatim>\<open>validateChanges\<close>.
\<close>

theorem conflictStage_instance_change_throws:
  "conflictStage dcServices dcInsts dcServers (\<lambda>_. None) (\<lambda>_. Some [mkImage ''IB''])
     askServiceAndAgentInstance = Inl TypeError
   \<and> conflictStage dcServices dcInsts dcServers (\<lambda>_. None) (\<lambda>_. Some [mkImage ''IB''])
       askAgentInstance = Inl TypeError
   \<and> conflictStage dcServices dcInsts dcServers (\<lambda>_. None) (\<lambda>_. Some [mkImage ''IB''])
       askServiceAndVmInstance = Inl (Error ''TODO'')
   \<and> conflictStage dcServices dcInsts dcServers (\<lambda>_. None) (\<lambda>_. Some [mkImage ''IB''])
       askByAlias = Inl (ValidationError (ExtraFields [''alias'']))"
  by code_simp
section \<open>Properties of the plan file\<close>

lemma those_map_roundtrip:
  assumes "\<And>x. dec (enc x) = Some x"
  shows "those (map (dec \<circ> enc) xs) = Some xs"
  using assms by (induction xs) simp_all

lemma map_of_optField:
  "map_of (optField k enc x @ rest) k' =
     (if k' = k then (case x of None \<Rightarrow> map_of rest k' | Some y \<Rightarrow> Some (enc y))
      else map_of rest k')"
  by (cases x) (simp_all add: optField_def)

lemma map_of_optField_last:
  "map_of (optField k enc x) k' =
     (if k' = k then map_option enc x else None)"
  by (cases x) (simp_all add: optField_def)

lemma optVal_some: "optVal dec kvs k = (case map_of kvs k of None \<Rightarrow> Some None | Some j \<Rightarrow> map_option Some (dec j))"
  by (simp add: optVal_def)

lemma image_roundtrip: "fromJSON_image (toJSON_image i) = Some i"
  by (simp add: toJSON_image_def reqStr_def)

lemma inst_roundtrip: "fromJSON_inst (toJSON_inst i) = Some i"
  by (cases "inst_zonename i"; cases "inst_alias i"; cases "inst_ip i")
     (simp_all add: toJSON_inst_def reqStr_def optVal_def optField_def)

lemma params_roundtrip: "fromJSON_params (JObj (optField ''image_uuid'' JStr ps)) = Some ps"
  by (cases ps) (simp_all add: optVal_def optField_def)

lemma service_roundtrip: "fromJSON_service (toJSON_service sv) = Some sv"
proof (cases "svc_params sv")
  case None
  then show ?thesis
    by (simp add: toJSON_service_def reqStr_def optVal_def optField_def)
next
  case (Some ps)
  then show ?thesis
    using params_roundtrip[of ps]
    by (simp add: toJSON_service_def reqStr_def optVal_def optField_def[of "''params''"])
qed

lemma change_roundtrip: "fromJSON_change (toJSON_change c) = Some c"
  unfolding toJSON_change_def
  by (cases "ch_instance c"; cases "ch_server c"; cases "ch_images c"; cases "ch_image c";
      cases "ch_inst c"; cases "ch_insts c")
     (simp_all add: reqStr_def optVal_def optField_def service_roundtrip inst_roundtrip
        image_roundtrip those_map_roundtrip)

text \<open>
  C8, as stated, fails: \<^verbatim>\<open>serialize\<close> writes \<^verbatim>\<open>v\<close>, \<^verbatim>\<open>targ\<close>, \<^verbatim>\<open>changes\<close> and \<^verbatim>\<open>justImages\<close>
  and leaves \<^verbatim>\<open>curr\<close> out, so two version-1 plans that differ in \<^verbatim>\<open>curr\<close> alone have the
  same serialized form, and no reader can return each of them.
\<close>

theorem serialize_forgets_curr_counterexample:
  "serialize planJustImages = serialize (planJustImages\<lparr>curr := []\<rparr>) \<and>
   planJustImages \<noteq> planJustImages\<lparr>curr := []\<rparr> \<and>
   v planJustImages = 1 \<and> v (planJustImages\<lparr>curr := []\<rparr>) = 1"
  by (simp add: serialize_def planJustImages_def)

text \<open>
  C8, amended. For every version-1 plan, reading the serialized form back gives the
  \<^verbatim>\<open>v\<close>, \<^verbatim>\<open>targ\<close>, \<^verbatim>\<open>changes\<close> and \<^verbatim>\<open>justImages\<close> of the plan: the four fields of the
  serialized form, which does not hold \<^verbatim>\<open>curr\<close>.
\<close>

theorem deserialize_serialize:
  assumes "v p = 1"
  shows "deserialize (serialize p) = Some (fileOf p)"
  using assms
  by (simp add: serialize_def fileOf_def those_map_roundtrip inst_roundtrip change_roundtrip)

theorem deserialize_serialize_witness:
  "v planTwoVmapi = 1 \<and>
   deserialize (serialize planTwoVmapi) =
     Some \<lparr> pf_v = 1, pf_targ = targ planTwoVmapi, pf_changes = changes planTwoVmapi,
            pf_justImages = False \<rparr>"
proof -
  have h: "v planTwoVmapi = 1" by (simp add: planTwoVmapi_def)
  from deserialize_serialize[OF h] h show ?thesis
    by (simp add: fileOf_def planTwoVmapi_def)
qed

lemma deserialize_rejects_other_versions:
  "v p \<noteq> 1 \<Longrightarrow> deserialize (serialize p) = None"
  by (simp add: serialize_def)

section \<open>Properties of the replicated-database procedure\<close>

subsection \<open>\<^verbatim>\<open>waitForManatee\<close>\<close>

lemma log_perform: "log (snd (perform orc a st)) = log st @ [Call a]"
  by (simp add: perform_def split: prod.splits)

lemma log_sleep: "log (sleep orc ms st) = log st @ [Call (Sleep ms)]"
  by (simp add: sleep_def log_perform)

lemma log_seen: "log (seen e st) = log st @ [e]"
  by (simp add: seen_def)

lemma newEvents_append: "log st' = log st @ evs \<Longrightarrow> newEvents st st' = evs"
  by (simp add: newEvents_def)

lemma replyAt_0: "replyAt orc server zone st 0 = fst (perform orc (GetShardStatus server zone) st)"
  by (simp add: replyAt_def)

lemma replyAt_Suc:
  "replyAt orc server zone st (Suc k) = replyAt orc server zone (nextPoll orc server zone st) k"
  by (simp add: replyAt_def funpow_swap1)

lemma log_nextPoll:
  "log (nextPoll orc server zone st) = log st @ [Call (GetShardStatus server zone), Call (Sleep 5000)]"
  by (simp add: nextPoll_def log_sleep log_perform)

lemma wait_sees:
  assumes "sees state (replyAt orc server zone st 0)"
  shows "waitForManateeFrom orc state server zone c st =
           (None, seen (Reached state server zone) (snd (perform orc (GetShardStatus server zone) st)))"
  using assms
  by (subst waitForManateeFrom.simps)
     (auto simp: sees_def replyAt_0 split: prod.splits reply.splits)

lemma wait_misses:
  assumes "misses state (replyAt orc server zone st 0)"
  shows "waitForManateeFrom orc state server zone c st =
           (if c + 1 < waitLimit
            then waitForManateeFrom orc state server zone (c + 1) (nextPoll orc server zone st)
            else (Some timeout15m, snd (perform orc (GetShardStatus server zone) st)))"
  using assms
  by (subst waitForManateeFrom.simps)
     (auto simp: misses_def replyAt_0 nextPoll_def split: prod.splits reply.splits)

lemma wait_other:
  assumes "\<not> sees state (replyAt orc server zone st 0)" "\<not> misses state (replyAt orc server zone st 0)"
  shows "snd (waitForManateeFrom orc state server zone c st) =
           snd (perform orc (GetShardStatus server zone) st) \<and>
         fst (waitForManateeFrom orc state server zone c st) \<noteq> None"
  using assms
  by (subst (1 2) waitForManateeFrom.simps)
     (auto simp: sees_def misses_def replyAt_0 split: prod.splits reply.splits)

lemma shape_one: "c < waitLimit \<Longrightarrow> r \<noteq> None \<Longrightarrow> waitShape state server zone c r [Call (GetShardStatus server zone)]"
  by (simp add: waitShape_def pollsIn_def sleptMs_def)

lemma shape_seen: "c < waitLimit \<Longrightarrow> waitShape state server zone c r [Call (GetShardStatus server zone), Reached state server zone]"
  by (simp add: waitShape_def pollsIn_def sleptMs_def)

lemma shape_more:
  "waitShape state server zone (c + 1) r evs \<Longrightarrow>
   waitShape state server zone c r (Call (GetShardStatus server zone) # Call (Sleep 5000) # evs)"
  by (auto simp: waitShape_def pollsIn_def sleptMs_def)

lemma wait_shape:
  "c < waitLimit \<Longrightarrow>
   \<exists>evs. log (snd (waitForManateeFrom orc state server zone c st)) = log st @ evs \<and>
         waitShape state server zone c (fst (waitForManateeFrom orc state server zone c st)) evs"
proof (induction n \<equiv> "waitLimit - c" arbitrary: c st)
  case 0
  then show ?case by simp
next
  case (Suc n)
  let ?p = "snd (perform orc (GetShardStatus server zone) st)"
  consider (s) "sees state (replyAt orc server zone st 0)"
    | (m) "misses state (replyAt orc server zone st 0)"
    | (o) "\<not> sees state (replyAt orc server zone st 0)" "\<not> misses state (replyAt orc server zone st 0)"
    by blast
  then show ?case
  proof cases
    case s
    show ?thesis
      unfolding wait_sees[OF s]
      using shape_seen[OF Suc.prems] by (simp add: log_seen log_perform)
  next
    case o
    from wait_other[OF o, of c] shape_one[OF Suc.prems, of _ state server zone]
    show ?thesis by (simp add: log_perform)
  next
    case m
    show ?thesis
    proof (cases "c + 1 < waitLimit")
      case False
      with wait_misses[OF m, of c] shape_one[OF Suc.prems, of "Some timeout15m" state server zone]
      show ?thesis by (simp add: log_perform)
    next
      case True
      with Suc.hyps(2) have "n = waitLimit - (c + 1)" by simp
      from Suc.hyps(1)[OF this True, of "nextPoll orc server zone st"]
      obtain evs where
        e: "log (snd (waitForManateeFrom orc state server zone (c + 1) (nextPoll orc server zone st)))
              = log (nextPoll orc server zone st) @ evs"
        and sh: "waitShape state server zone (c + 1)
              (fst (waitForManateeFrom orc state server zone (c + 1) (nextPoll orc server zone st))) evs"
        by blast
      from wait_misses[OF m, of c] True
      have u: "waitForManateeFrom orc state server zone c st =
               waitForManateeFrom orc state server zone (c + 1) (nextPoll orc server zone st)"
        by simp
      show ?thesis
        unfolding u e using shape_more[OF sh]
        by (simp add: log_nextPoll)
    qed
  qed
qed

lemma wait_reached:
  "k + c < waitLimit \<Longrightarrow> (\<forall>j<k. misses state (replyAt orc server zone st j)) \<Longrightarrow>
   sees state (replyAt orc server zone st k) \<Longrightarrow>
   fst (waitForManateeFrom orc state server zone c st) = None \<and>
   pollsIn (newEvents st (snd (waitForManateeFrom orc state server zone c st))) = k + 1"
proof (induction k arbitrary: c st)
  case 0
  then have s: "sees state (replyAt orc server zone st 0)" by simp
  show ?case
    unfolding wait_sees[OF s]
    by (simp add: newEvents_def log_seen log_perform pollsIn_def)
next
  case (Suc k)
  from Suc.prems(2) have m0: "misses state (replyAt orc server zone st 0)" by blast
  from Suc.prems(1) have c1: "c + 1 < waitLimit" by simp
  let ?st1 = "nextPoll orc server zone st"
  have ih: "fst (waitForManateeFrom orc state server zone (c + 1) ?st1) = None \<and>
        pollsIn (newEvents ?st1 (snd (waitForManateeFrom orc state server zone (c + 1) ?st1))) = k + 1"
  proof (rule Suc.IH)
    show "k + (c + 1) < waitLimit" using Suc.prems(1) by simp
    show "\<forall>j<k. misses state (replyAt orc server zone ?st1 j)"
      using Suc.prems(2) by (auto simp: replyAt_Suc[symmetric])
    show "sees state (replyAt orc server zone ?st1 k)"
      using Suc.prems(3) by (simp add: replyAt_Suc)
  qed
  from wait_shape[OF c1, of orc state server zone ?st1] obtain evs where
    e: "log (snd (waitForManateeFrom orc state server zone (c + 1) ?st1)) = log ?st1 @ evs"
    by blast
  from wait_misses[OF m0, of c] c1
  have u: "waitForManateeFrom orc state server zone c st =
           waitForManateeFrom orc state server zone (c + 1) ?st1" by simp
  from e have n1: "newEvents ?st1 (snd (waitForManateeFrom orc state server zone (c + 1) ?st1)) = evs"
    by (rule newEvents_append)
  from e have "log (snd (waitForManateeFrom orc state server zone (c + 1) ?st1)) =
     log st @ (Call (GetShardStatus server zone) # Call (Sleep 5000) # evs)"
    by (simp add: log_nextPoll)
  then have n0: "newEvents st (snd (waitForManateeFrom orc state server zone (c + 1) ?st1)) =
     Call (GetShardStatus server zone) # Call (Sleep 5000) # evs"
    by (rule newEvents_append)
  from ih show ?case unfolding u n0 using n1 by (simp add: pollsIn_def)
qed

lemma wait_timeout:
  "c + n + 1 = waitLimit \<Longrightarrow> (\<forall>j\<le>n. misses state (replyAt orc server zone st j)) \<Longrightarrow>
   fst (waitForManateeFrom orc state server zone c st) = Some timeout15m \<and>
   pollsIn (newEvents st (snd (waitForManateeFrom orc state server zone c st))) = n + 1"
proof (induction n arbitrary: c st)
  case 0
  then have m0: "misses state (replyAt orc server zone st 0)" by blast
  from 0 have "\<not> c + 1 < waitLimit" by simp
  with wait_misses[OF m0, of c] show ?case
    by (simp add: newEvents_def log_perform pollsIn_def)
next
  case (Suc n)
  from Suc.prems(2) have m0: "misses state (replyAt orc server zone st 0)" by blast
  from Suc.prems(1) have c1: "c + 1 < waitLimit" by simp
  let ?st1 = "nextPoll orc server zone st"
  have ih: "fst (waitForManateeFrom orc state server zone (c + 1) ?st1) = Some timeout15m \<and>
        pollsIn (newEvents ?st1 (snd (waitForManateeFrom orc state server zone (c + 1) ?st1))) = n + 1"
  proof (rule Suc.IH)
    show "c + 1 + n + 1 = waitLimit" using Suc.prems(1) by simp
    show "\<forall>j\<le>n. misses state (replyAt orc server zone ?st1 j)"
      using Suc.prems(2) by (auto simp: replyAt_Suc[symmetric])
  qed
  from wait_shape[OF c1, of orc state server zone ?st1] obtain evs where
    e: "log (snd (waitForManateeFrom orc state server zone (c + 1) ?st1)) = log ?st1 @ evs"
    by blast
  from wait_misses[OF m0, of c] c1
  have u: "waitForManateeFrom orc state server zone c st =
           waitForManateeFrom orc state server zone (c + 1) ?st1" by simp
  from e have n1: "newEvents ?st1 (snd (waitForManateeFrom orc state server zone (c + 1) ?st1)) = evs"
    by (rule newEvents_append)
  from e have "log (snd (waitForManateeFrom orc state server zone (c + 1) ?st1)) =
     log st @ (Call (GetShardStatus server zone) # Call (Sleep 5000) # evs)"
    by (simp add: log_nextPoll)
  then have n0: "newEvents st (snd (waitForManateeFrom orc state server zone (c + 1) ?st1)) =
     Call (GetShardStatus server zone) # Call (Sleep 5000) # evs"
    by (rule newEvents_append)
  from ih show ?case unfolding u n0 using n1 by (simp add: pollsIn_def)
qed


lemma pipeline_stops:
  "f st = Some (Some e, st') \<Longrightarrow> pipeline (f # rest) st = Some (Some e, st')"
  by simp

text \<open>
  C3. Every wait for a shard mode is a call of \<^verbatim>\<open>waitForManatee\<close>. Such a wait always
  ends, after at least one and at most 180 polls of the shard status with a pause of
  5000 ms between two polls. If the poll number \<open>k\<close> (for a \<open>k\<close> below 180) is the first
  to show the mode waited for, the polls before it having shown other modes, the wait
  ends well after \<open>k + 1\<close> polls. If none of 180 polls shows it, the wait ends with the
  timeout error after 180 polls. An error of the wait ends the pipeline it is a step of,
  in the state that the wait has left.
\<close>

theorem waitForManatee_cap:
  "(\<exists>evs. log (snd (waitForManatee orc state server zone st)) = log st @ evs)
   \<and> 1 \<le> pollsIn (newEvents st (snd (waitForManatee orc state server zone st)))
   \<and> pollsIn (newEvents st (snd (waitForManatee orc state server zone st))) \<le> 180
   \<and> sleptMs (newEvents st (snd (waitForManatee orc state server zone st)))
       = 5000 * (pollsIn (newEvents st (snd (waitForManatee orc state server zone st))) - 1)
   \<and> (fst (waitForManatee orc state server zone st) = None \<longrightarrow>
        last (log (snd (waitForManatee orc state server zone st))) = Reached state server zone)
   \<and> (\<forall>k<180. (\<forall>j<k. misses state (replyAt orc server zone st j))
                 \<and> sees state (replyAt orc server zone st k) \<longrightarrow>
          fst (waitForManatee orc state server zone st) = None
          \<and> pollsIn (newEvents st (snd (waitForManatee orc state server zone st))) = k + 1)
   \<and> ((\<forall>k<180. misses state (replyAt orc server zone st k)) \<longrightarrow>
          fst (waitForManatee orc state server zone st) = Some timeout15m
          \<and> pollsIn (newEvents st (snd (waitForManatee orc state server zone st))) = 180)
   \<and> (\<forall>e rest. fst (waitForManatee orc state server zone st) = Some e \<longrightarrow>
          pipeline ((\<lambda>s. Some (waitForManatee orc state server zone s)) # rest) st
            = Some (Some e, snd (waitForManatee orc state server zone st)))"
proof -
  let ?res = "waitForManatee orc state server zone st"
  have c0: "(0::nat) < waitLimit" by (simp add: waitLimit_def)
  from wait_shape[OF c0, of orc state server zone st] obtain evs where
    e: "log (snd ?res) = log st @ evs" and sh: "waitShape state server zone 0 (fst ?res) evs"
    by (auto simp: waitForManatee_def)
  from e have n: "newEvents st (snd ?res) = evs" by (rule newEvents_append)
  from sh have ne: "evs \<noteq> []" by (auto simp: waitShape_def pollsIn_def)
  have 1: "\<exists>evs. log (snd ?res) = log st @ evs" using e by blast
  have 2: "1 \<le> pollsIn (newEvents st (snd ?res))" "pollsIn (newEvents st (snd ?res)) \<le> 180"
    "sleptMs (newEvents st (snd ?res)) = 5000 * (pollsIn (newEvents st (snd ?res)) - 1)"
    using sh unfolding n by (simp_all add: waitShape_def waitLimit_def)
  have 3: "fst ?res = None \<longrightarrow> last (log (snd ?res)) = Reached state server zone"
    using sh ne unfolding e by (simp add: waitShape_def)
  have 4: "\<forall>k<180. (\<forall>j<k. misses state (replyAt orc server zone st j))
                 \<and> sees state (replyAt orc server zone st k) \<longrightarrow>
          fst ?res = None \<and> pollsIn (newEvents st (snd ?res)) = k + 1"
    using wait_reached[of _ 0 state orc server zone st]
    by (simp add: waitForManatee_def waitLimit_def)
  have 5: "(\<forall>k<180. misses state (replyAt orc server zone st k)) \<longrightarrow>
          fst ?res = Some timeout15m \<and> pollsIn (newEvents st (snd ?res)) = 180"
    using wait_timeout[of 0 179 state orc server zone st]
    by (simp add: waitForManatee_def waitLimit_def)
  have 6: "\<forall>e rest. fst ?res = Some e \<longrightarrow>
          pipeline ((\<lambda>s. Some (waitForManatee orc state server zone s)) # rest) st
            = Some (Some e, snd ?res)"
    by (cases ?res) auto
  from 1 2 3 4 5 6 show ?thesis by blast
qed

theorem waitForManatee_cap_witness:
  "misses Async (replyAt slowOracle None ''Z0'' (startState 0) 0) \<and>
   misses Async (replyAt slowOracle None ''Z0'' (startState 0) 1) \<and>
   sees Async (replyAt slowOracle None ''Z0'' (startState 0) 2) \<and>
   fst (waitForManatee slowOracle Async None ''Z0'' (startState 0)) = None \<and>
   pollsIn (newEvents (startState 0) (snd (waitForManatee slowOracle Async None ''Z0'' (startState 0)))) = 3 \<and>
   sleptMs (newEvents (startState 0) (snd (waitForManatee slowOracle Async None ''Z0'' (startState 0)))) = 10000 \<and>
   fst (waitForManatee (fixedOracle (syncModeShard ''Z0'' ''Z1'')) Async None ''Z0'' (startState ()))
     = Some timeout15m \<and>
   pollsIn (newEvents (startState ())
     (snd (waitForManatee (fixedOracle (syncModeShard ''Z0'' ''Z1'')) Async None ''Z0'' (startState ())))) = 180"
proof -
  have m0: "misses Async (replyAt slowOracle None ''Z0'' (startState 0) 0)" by code_simp
  have m1: "misses Async (replyAt slowOracle None ''Z0'' (startState 0) 1)" by code_simp
  have s2: "sees Async (replyAt slowOracle None ''Z0'' (startState 0) 2)" by code_simp
  have pre: "(\<forall>j<2. misses Async (replyAt slowOracle None ''Z0'' (startState 0) j))"
    using m0 m1 by (auto simp: less_Suc_eq numeral_2_eq_2)
  have f: "\<forall>k<180. misses Async (replyAt (fixedOracle (syncModeShard ''Z0'' ''Z1'')) None ''Z0'' (startState ()) k)"
    by (simp add: replyAt_def perform_def fixedOracle_def misses_def shardMode_def
        syncModeShard_def split: prod.splits)
  note t = waitForManatee_cap[of slowOracle Async None "''Z0''" "startState 0"]
  note u = waitForManatee_cap[of "fixedOracle (syncModeShard ''Z0'' ''Z1'')" Async None "''Z0''" "startState ()"]
  from t have F: "\<forall>k<180. (\<forall>j<k. misses Async (replyAt slowOracle None ''Z0'' (startState 0) j))
                 \<and> sees Async (replyAt slowOracle None ''Z0'' (startState 0) k) \<longrightarrow>
          fst (waitForManatee slowOracle Async None ''Z0'' (startState 0)) = None
          \<and> pollsIn (newEvents (startState 0)
                (snd (waitForManatee slowOracle Async None ''Z0'' (startState 0)))) = k + 1"
    by (elim conjE)
  from F[rule_format, of 2] pre s2
  have a: "fst (waitForManatee slowOracle Async None ''Z0'' (startState 0)) = None"
    "pollsIn (newEvents (startState 0) (snd (waitForManatee slowOracle Async None ''Z0'' (startState 0)))) = 3"
    by simp_all
  from t have S: "sleptMs (newEvents (startState 0) (snd (waitForManatee slowOracle Async None ''Z0'' (startState 0))))
       = 5000 * (pollsIn (newEvents (startState 0) (snd (waitForManatee slowOracle Async None ''Z0'' (startState 0)))) - 1)"
    by (elim conjE)
  with a have b: "sleptMs (newEvents (startState 0) (snd (waitForManatee slowOracle Async None ''Z0'' (startState 0)))) = 10000"
    by simp
  from u have G: "(\<forall>k<180. misses Async (replyAt (fixedOracle (syncModeShard ''Z0'' ''Z1'')) None ''Z0'' (startState ()) k)) \<longrightarrow>
          fst (waitForManatee (fixedOracle (syncModeShard ''Z0'' ''Z1'')) Async None ''Z0'' (startState ())) = Some timeout15m
          \<and> pollsIn (newEvents (startState ())
               (snd (waitForManatee (fixedOracle (syncModeShard ''Z0'' ''Z1'')) Async None ''Z0'' (startState ())))) = 180"
    by (elim conjE)
  from G f have c: "fst (waitForManatee (fixedOracle (syncModeShard ''Z0'' ''Z1'')) Async None ''Z0'' (startState ()))
     = Some timeout15m"
   "pollsIn (newEvents (startState ())
     (snd (waitForManatee (fixedOracle (syncModeShard ''Z0'' ''Z1'')) Async None ''Z0'' (startState ())))) = 180"
    by blast+
  from m0 m1 s2 a b c show ?thesis by blast
qed

subsection \<open>Steps and their milestones\<close>



lemma milestones_append: "milestones (xs @ ys) = milestones xs @ milestones ys"
  by (simp add: milestones_def)







lemma emitsI:
  assumes "\<And>st r st'. I st \<Longrightarrow> f st = Some (r, st') \<Longrightarrow>
             I st' \<and> (\<exists>Y. milestones (log st') = milestones (log st) @ Y \<and> prefix Y X \<and>
                           (r = None \<longrightarrow> Y = X))"
  shows "emits I f X"
  using assms unfolding emits_def by blast




lemma emits_throw: "emits I throwTypeError X"
  by (rule emitsI) (auto simp: throwTypeError_def)












lemma postgres_never_times_out:
  "waitForPostgresUpFrom fuel orc server zone c st = Some (r, st') \<Longrightarrow> c < 36 \<Longrightarrow> r = None"
proof (induction fuel arbitrary: st)
  case 0
  then show ?case by simp
next
  case (Suc fuel)
  obtain rp st1 where pf: "perform orc (PingPostgres server zone) st = (rp, st1)"
    by (cases "perform orc (PingPostgres server zone) st")
  from Suc.prems pf Suc.IH[of "sleep orc 5000 st1"] show ?case
    by (auto split: reply.splits if_splits)
qed



subsection \<open>The pipeline of \<^verbatim>\<open>updateManatee\<close>\<close>













lemma verifyFullHA_eq:
  "verifyFullHA ch st =
     (if isHA ch \<and> (sync (arg_shard st) = None \<or> async (arg_shard st) = None)
      then Some (Some (CallbackError ''HA setup error''), st) else Some (None, st))"
  by (simp add: verifyFullHA_def verifyFullHA_calls_def)

lemma emits_verifyFullHA: "emits I (verifyFullHA ch) []"
  by (rule emitsI) (auto simp: verifyFullHA_eq split: if_splits)




























end
